theory Spec2Isabelle
  imports Complex_Main "HOL-Library.Signed_Division" "HOL-Library.Multiset"
begin

section \<open>The accumulator arithmetic\<close>

text \<open>
  The kernel accumulates in \<open>accum_t = float\<close>. The embedding keeps the special values of
  the floats (the two infinities, the two zeros and not-a-number) and replaces the other
  floats by the real numbers without zero: rounding is not modelled. \<open>Fin 0\<close> is \<open>+0.0\<close>,
  \<open>NZero\<close> is \<open>-0.0\<close>, and \<open>NaN\<close> is the quiet not-a-number that the arithmetic of the
  device returns, with the bit pattern \<open>0x7fffffff\<close>. Operations follow IEEE 754 on the
  special values.
\<close>

datatype accum_t = NaN | NInf | Fin real | NZero | PInf

text \<open>The infinity and the zero of a given sign: positive when \<open>pos\<close>.\<close>

definition signed_inf :: "bool \<Rightarrow> accum_t" where
  "signed_inf pos = (if pos then PInf else NInf)"

definition signed_zero :: "bool \<Rightarrow> accum_t" where
  "signed_zero pos = (if pos then Fin 0 else NZero)"

instantiation accum_t :: "{zero, one, plus, uminus, minus, times}"
begin

text \<open>The neutral element of the addition is the negative zero (\<open>-0.0 + x = x\<close> for
  every \<open>x\<close>, whereas \<open>+0.0 + -0.0 = +0.0\<close>); the literal \<open>0.0\<close> of the source is \<open>Fin 0\<close>.\<close>

definition zero_accum_t :: accum_t where
  "zero_accum_t = NZero"

definition one_accum_t :: accum_t where
  "one_accum_t = Fin 1"

fun plus_accum_t :: "accum_t \<Rightarrow> accum_t \<Rightarrow> accum_t" where
  "plus_accum_t (Fin a) (Fin b) = Fin (a + b)"
| "plus_accum_t NZero y = y"
| "plus_accum_t x NZero = x"
| "plus_accum_t NaN y = NaN"
| "plus_accum_t x NaN = NaN"
| "plus_accum_t PInf NInf = NaN"
| "plus_accum_t NInf PInf = NaN"
| "plus_accum_t PInf y = PInf"
| "plus_accum_t x PInf = PInf"
| "plus_accum_t NInf y = NInf"
| "plus_accum_t x NInf = NInf"

fun uminus_accum_t :: "accum_t \<Rightarrow> accum_t" where
  "uminus_accum_t NaN = NaN"
| "uminus_accum_t NInf = PInf"
| "uminus_accum_t (Fin a) = (if a = 0 then NZero else Fin (- a))"
| "uminus_accum_t NZero = Fin 0"
| "uminus_accum_t PInf = NInf"

definition minus_accum_t :: "accum_t \<Rightarrow> accum_t \<Rightarrow> accum_t" where
  "minus_accum_t x y = x + (- y)"

fun times_accum_t :: "accum_t \<Rightarrow> accum_t \<Rightarrow> accum_t" where
  "times_accum_t (Fin a) (Fin b) =
     (if a * b = 0 then signed_zero ((a < 0) = (b < 0)) else Fin (a * b))"
| "times_accum_t (Fin a) NZero = signed_zero (a < 0)"
| "times_accum_t NZero (Fin b) = signed_zero (b < 0)"
| "times_accum_t NZero NZero = Fin 0"
| "times_accum_t NaN y = NaN"
| "times_accum_t x NaN = NaN"
| "times_accum_t (Fin a) PInf = (if a = 0 then NaN else signed_inf (0 < a))"
| "times_accum_t (Fin a) NInf = (if a = 0 then NaN else signed_inf (a < 0))"
| "times_accum_t PInf (Fin b) = (if b = 0 then NaN else signed_inf (0 < b))"
| "times_accum_t NInf (Fin b) = (if b = 0 then NaN else signed_inf (b < 0))"
| "times_accum_t NZero y = NaN"
| "times_accum_t x NZero = NaN"
| "times_accum_t PInf PInf = PInf"
| "times_accum_t NInf NInf = PInf"
| "times_accum_t PInf NInf = NInf"
| "times_accum_t NInf PInf = NInf"

instance ..

end

text \<open>Division.\<close>

fun fdiv :: "accum_t \<Rightarrow> accum_t \<Rightarrow> accum_t" where
  "fdiv (Fin a) (Fin b) =
     (if b \<noteq> 0 then (if a = 0 then signed_zero (0 < b) else Fin (a / b))
      else if a = 0 then NaN else signed_inf (0 < a))"
| "fdiv (Fin a) NZero = (if a = 0 then NaN else signed_inf (a < 0))"
| "fdiv NZero (Fin b) = (if b = 0 then NaN else signed_zero (b < 0))"
| "fdiv NZero NZero = NaN"
| "fdiv NaN y = NaN"
| "fdiv x NaN = NaN"
| "fdiv (Fin a) PInf = signed_zero (0 \<le> a)"
| "fdiv (Fin a) NInf = signed_zero (a < 0)"
| "fdiv NZero PInf = NZero"
| "fdiv NZero NInf = Fin 0"
| "fdiv PInf (Fin b) = signed_inf (0 \<le> b)"
| "fdiv NInf (Fin b) = signed_inf (b < 0)"
| "fdiv PInf NZero = NInf"
| "fdiv NInf NZero = PInf"
| "fdiv x y = NaN"

text \<open>\<open>cutlass::fast_max\<close> on floats is \<open>fmaxf\<close>: the larger operand, the other operand when
  one is not a number, and of the two zeros the positive one.\<close>

fun fast_max :: "accum_t \<Rightarrow> accum_t \<Rightarrow> accum_t" where
  "fast_max NaN y = y"
| "fast_max x NaN = x"
| "fast_max PInf y = PInf"
| "fast_max x PInf = PInf"
| "fast_max NInf y = y"
| "fast_max x NInf = x"
| "fast_max (Fin a) (Fin b) = Fin (max a b)"
| "fast_max (Fin a) NZero = (if a < 0 then NZero else Fin a)"
| "fast_max NZero (Fin b) = (if b < 0 then NZero else Fin b)"
| "fast_max NZero NZero = NZero"

text \<open>
  \<open>atomicMaxFloat(addr, value)\<close> does not compare floats: for \<open>value >= 0\<close> it takes the
  maximum of the two bit patterns read as signed integers (\<open>atomicMax\<close>), otherwise the
  minimum of the two bit patterns read as unsigned integers (\<open>atomicMin\<close>). A bit pattern
  is a sign bit followed by the bits of the magnitude, and the magnitudes are ordered as
  their bits are: zero, the positive reals, infinity, not-a-number. The function below is
  the value left at \<open>addr\<close>.
\<close>

fun signbit :: "accum_t \<Rightarrow> bool" where
  "signbit NaN = False"
| "signbit NInf = True"
| "signbit (Fin a) = (a < 0)"
| "signbit NZero = True"
| "signbit PInf = False"

fun magnitude_less :: "accum_t \<Rightarrow> accum_t \<Rightarrow> bool" where
  "magnitude_less x NZero = False"
| "magnitude_less NaN y = False"
| "magnitude_less x NaN = True"
| "magnitude_less NInf y = False"
| "magnitude_less PInf y = False"
| "magnitude_less x NInf = True"
| "magnitude_less x PInf = True"
| "magnitude_less NZero (Fin b) = (b \<noteq> 0)"
| "magnitude_less (Fin a) (Fin b) = (\<bar>a\<bar> < \<bar>b\<bar>)"

text \<open>\<open>__float_as_int(x) < __float_as_int(y)\<close>: a pattern with the sign bit is a negative
  integer, and among two patterns of one sign the one of smaller magnitude is the smaller
  integer.\<close>

definition float_as_int_less :: "accum_t \<Rightarrow> accum_t \<Rightarrow> bool" where
  "float_as_int_less x y =
     (if signbit x = signbit y then magnitude_less x y else signbit x)"

text \<open>\<open>__float_as_uint(x) < __float_as_uint(y)\<close>: a pattern with the sign bit is the
  larger unsigned integer.\<close>

definition float_as_uint_less :: "accum_t \<Rightarrow> accum_t \<Rightarrow> bool" where
  "float_as_uint_less x y =
     (if signbit x = signbit y then magnitude_less x y else signbit y)"

text \<open>The comparison \<open>value >= 0\<close> on floats: it holds of both zeros and fails on
  not-a-number.\<close>

fun ge_zero :: "accum_t \<Rightarrow> bool" where
  "ge_zero NaN = False"
| "ge_zero NInf = False"
| "ge_zero (Fin a) = (0 \<le> a)"
| "ge_zero NZero = True"
| "ge_zero PInf = True"

definition atomicMaxFloat :: "accum_t \<Rightarrow> accum_t \<Rightarrow> accum_t" where
  "atomicMaxFloat old v =
     (if ge_zero v then (if float_as_int_less old v then v else old)
      else (if float_as_uint_less v old then v else old))"

fun exp2f :: "accum_t \<Rightarrow> accum_t" where
  "exp2f NaN = NaN"
| "exp2f NInf = Fin 0"
| "exp2f (Fin a) = Fin (2 powr a)"
| "exp2f NZero = Fin 1"
| "exp2f PInf = PInf"

text \<open>\<open>cutlass::fast_log\<close> on floats is \<open>logf\<close>.\<close>

fun fast_log :: "accum_t \<Rightarrow> accum_t" where
  "fast_log NaN = NaN"
| "fast_log NInf = NaN"
| "fast_log (Fin a) = (if a < 0 then NaN else if a = 0 then NInf else Fin (ln a))"
| "fast_log NZero = NInf"
| "fast_log PInf = PInf"

text \<open>\<open>kLog2e = 1.4426950408889634074\<close> is the float nearest to \<open>log\<^sub>2 e\<close>; without
  rounding it is \<open>log\<^sub>2 e\<close> itself.\<close>

definition kLog2e :: real where
  "kLog2e = 1 / ln 2"

instance accum_t :: comm_monoid_add
proof
  fix u v w :: accum_t
  show "0 + u = u"
    unfolding zero_accum_t_def by (cases u) simp_all
  show "u + v = v + u"
    by (cases u; cases v; simp)
  show "(u + v) + w = u + (v + w)"
    by (cases u; cases v; cases w; simp)
qed

section \<open>Template parameters and kernel parameters\<close>

text \<open>
  The template parameters of \<open>struct AttentionKernel\<close>. The alignments of the first matrix
  multiply (\<open>MM0::kAlignmentA\<close>, \<open>MM0::kAlignmentB\<close>) and the size of \<open>scalar_t\<close> come from
  CUTLASS types and are parameters here. \<open>lane_columns m\<close> lists, for each thread holding
  part of row \<open>m\<close> of the score tile, the tile columns that thread holds
  (\<open>AccumLambdaIterator\<close>, a CUTLASS layout).
\<close>

record AttentionKernel =
  sizeof_scalar_t :: nat
  kQueriesPerBlock :: nat
  kKeysPerBlock :: nat
  kSingleValueIteration :: bool
  kAddMask :: bool
  kMaskBroadcastRow :: bool
  kMaskIsAligned :: bool
  MM0_kAlignmentA :: nat
  MM0_kAlignmentB :: nat
  lane_columns :: "nat \<Rightarrow> nat list list"

definition kAlignLSE :: int where
  "kAlignLSE = 32"

definition kWarpSize :: nat where
  "kWarpSize = 32"

definition kKeepOutputInRF :: "AttentionKernel \<Rightarrow> bool" where
  "kKeepOutputInRF ak = kSingleValueIteration ak"

definition kNumWarpsPerBlock :: "AttentionKernel \<Rightarrow> nat" where
  "kNumWarpsPerBlock ak = kQueriesPerBlock ak * kKeysPerBlock ak div (32 * 32)"

text \<open>\<open>kNumThreads\<close>, and \<open>kLinesPerWarp\<close> of \<open>iterative_softmax\<close> (a division of
  integers that are not negative).\<close>

definition kNumThreads :: "AttentionKernel \<Rightarrow> nat" where
  "kNumThreads ak = kWarpSize * kNumWarpsPerBlock ak"

definition kLinesPerWarp :: "AttentionKernel \<Rightarrow> nat" where
  "kLinesPerWarp ak = kQueriesPerBlock ak div kNumWarpsPerBlock ak"

definition kAlignmentQ :: "AttentionKernel \<Rightarrow> int" where
  "kAlignmentQ ak = int (MM0_kAlignmentA ak)"

definition kAlignmentK :: "AttentionKernel \<Rightarrow> int" where
  "kAlignmentK ak = int (MM0_kAlignmentB ak)"

definition kAlignmentV :: int where
  "kAlignmentV = 1"

definition kAlignmentM :: "AttentionKernel \<Rightarrow> int" where
  "kAlignmentM ak = (if kMaskIsAligned ak then kAlignmentQ ak else 1)"

text \<open>The three \<open>static_assert\<close>s on the tile shape: an instantiation that violates one does
  not compile.\<close>

definition static_asserts :: "AttentionKernel \<Rightarrow> bool" where
  "static_asserts ak \<longleftrightarrow>
     kQueriesPerBlock ak mod 32 = 0 \<and> kKeysPerBlock ak mod 32 = 0 \<and>
     kQueriesPerBlock ak < kNumWarpsPerBlock ak * kWarpSize"

text \<open>
  \<open>struct Params\<close>. A pointer is the index of the element it points to (its address in
  units of the pointee), \<open>0\<close> is \<open>nullptr\<close>. The signed 32 and 64 bit integers are
  integers: the model describes the runs in which no signed computation leaves the range
  of its type. The arithmetic of \<open>unsigned int\<close> is taken modulo \<open>2\<^sup>3\<^sup>2\<close> where the source
  multiplies or compares in that type.
\<close>

record Params =
  query_ptr :: int
  key_ptr :: int
  value_ptr :: int
  mask_ptr :: int
  cu_seqlens_q_ptr :: int
  cu_seqlens_k_ptr :: int
  output_ptr :: int
  output_accum_ptr :: int
  logsumexp_ptr :: int
  scale :: accum_t
  head_dim :: int
  head_dim_value :: int
  num_queries :: int
  num_keys :: int
  causal :: bool
  mask_broadcast_row :: bool
  q_strideM :: int
  k_strideM :: int
  v_strideM :: int
  mask_strideM :: int
  q_strideH :: int
  k_strideH :: int
  v_strideH :: int
  o_strideH :: int
  mask_strideH :: int
  q_strideB :: int
  k_strideB :: int
  v_strideB :: int
  o_strideB :: int
  mask_strideB :: int
  num_batches :: int
  num_heads :: int

record blockIdx =
  blockIdx_x :: nat
  blockIdx_y :: nat
  blockIdx_z :: nat

text \<open>The conversion of an integer to \<open>unsigned int\<close>.\<close>

definition uint32_t :: "int \<Rightarrow> int" where
  "uint32_t v = v mod 4294967296"

definition o_strideM :: "Params \<Rightarrow> int" where
  "o_strideM p = head_dim_value p"

text \<open>\<open>ceil_div\<close> of \<open>gemm_kernel_utils.h\<close>: \<open>(n + m - 1) / m\<close>, with the division of C
  that truncates towards zero.\<close>

definition ceil_div :: "int \<Rightarrow> int \<Rightarrow> int" where
  "ceil_div n m = (n + m - 1) sdiv m"

subsection \<open>Host-side validation\<close>

text \<open>
  Modelled from the spec: the macros \<open>CHECK_ALIGNED_PTR\<close> and \<open>XFORMERS_CHECK\<close> of
  \<open>gemm_kernel_utils.h\<close> are not part of the sources at hand. Following the spec (a
  validation routine that rejects misaligned buffers and strides), a failed check makes
  \<open>check_supported\<close> reject, which is the result \<open>False\<close>; \<open>CHECK_ALIGNED_PTR\<close> tests the
  address of the pointer, in bytes, an unsigned integer. The strides are signed and \<open>%\<close>
  is the remainder of the truncating division.
\<close>

definition ptr_address :: "AttentionKernel \<Rightarrow> int \<Rightarrow> int" where
  "ptr_address ak ptr = int (sizeof_scalar_t ak) * ptr"

definition CHECK_ALIGNED_PTR :: "AttentionKernel \<Rightarrow> int \<Rightarrow> int \<Rightarrow> bool" where
  "CHECK_ALIGNED_PTR ak ptr alignment \<longleftrightarrow> ptr_address ak ptr mod alignment = 0"

definition check_supported :: "AttentionKernel \<Rightarrow> Params \<Rightarrow> bool" where
  "check_supported ak p =
    (if \<not> CHECK_ALIGNED_PTR ak (query_ptr p) (kAlignmentQ ak) then False
     else if \<not> CHECK_ALIGNED_PTR ak (key_ptr p) (kAlignmentK ak) then False
     else if \<not> CHECK_ALIGNED_PTR ak (value_ptr p) kAlignmentV then False
     else if \<not> CHECK_ALIGNED_PTR ak (mask_ptr p) (kAlignmentM ak) then False
     else if mask_ptr p \<noteq> 0 \<and>
        (\<not> CHECK_ALIGNED_PTR ak (mask_ptr p) (kAlignmentM ak) \<or>
         mask_strideB p smod kAlignmentM ak \<noteq> 0 \<or>
         mask_strideH p smod kAlignmentM ak \<noteq> 0 \<or>
         mask_strideM p smod kAlignmentM ak \<noteq> 0) then False
     else if q_strideM p smod kAlignmentQ ak \<noteq> 0 then False
     else if k_strideM p smod kAlignmentK ak \<noteq> 0 then False
     else if v_strideM p smod kAlignmentV \<noteq> 0 then False
     else if q_strideH p smod kAlignmentQ ak \<noteq> 0 then False
     else if k_strideH p smod kAlignmentK ak \<noteq> 0 then False
     else if v_strideH p smod kAlignmentV \<noteq> 0 then False
     else True)"


subsection \<open>The tile coordinate resolver\<close>

text \<open>
  \<open>Params::advance_to_block\<close> moves the pointers to the block's batch, head and first query
  row; \<open>Inr None\<close> is the result \<open>false\<close> (no work), \<open>Inl AssertionFailed\<close> the failed
  \<open>assert\<close>. The tables of cumulative sequence lengths live in a memory of 32 bit
  integers, \<open>imem\<close>.
\<close>

datatype fault = AssertionFailed

definition query_start_of :: "AttentionKernel \<Rightarrow> blockIdx \<Rightarrow> int" where
  "query_start_of ak b = int (blockIdx_x b) * int (kQueriesPerBlock ak)"

text \<open>The first half: advancing to the current batch. The result carries \<open>q_start\<close> and
  \<open>k_start\<close>. \<open>query_start\<close> is an \<open>unsigned int\<close>, so \<open>query_start >= num_queries\<close> compares
  after the conversion of \<open>num_queries\<close> to \<open>unsigned int\<close>; \<open>batch_id * q_strideB\<close> and its
  like are products of 64 bit integers.\<close>

definition advance_to_batch ::
  "AttentionKernel \<Rightarrow> (int \<Rightarrow> int) \<Rightarrow> blockIdx \<Rightarrow> Params \<Rightarrow> fault + (Params \<times> int \<times> int) option" where
  "advance_to_batch ak imem b p =
    (let batch_id = int (blockIdx_z b) in
     if cu_seqlens_q_ptr p \<noteq> 0 then
       if cu_seqlens_k_ptr p = 0 then Inl AssertionFailed
       else
         let cq = cu_seqlens_q_ptr p + batch_id;
             ck = cu_seqlens_k_ptr p + batch_id;
             q_start = imem cq;
             k_start = imem ck;
             q_next_start = imem (cq + 1);
             k_next_start = imem (ck + 1);
             p1 = p\<lparr>cu_seqlens_q_ptr := cq, cu_seqlens_k_ptr := ck,
                    num_queries := q_next_start - q_start,
                    num_keys := k_next_start - k_start\<rparr>
         in if uint32_t (query_start_of ak b) \<ge> uint32_t (num_queries p1) then Inr None
            else Inr (Some (p1, q_start, k_start))
     else
       Inr (Some
         (p\<lparr>query_ptr := query_ptr p + batch_id * q_strideB p,
            key_ptr := key_ptr p + batch_id * k_strideB p,
            value_ptr := value_ptr p + batch_id * v_strideB p,
            output_ptr := output_ptr p + batch_id * o_strideB p,
            output_accum_ptr :=
              (if output_accum_ptr p \<noteq> 0 then output_accum_ptr p + batch_id * o_strideB p
               else output_accum_ptr p)\<rparr>,
          0, 0)))"

text \<open>The second half: advancing to the current head and query start, and the causal
  clamp of \<open>num_keys\<close>. \<open>lse_dim\<close> was computed from \<open>num_queries\<close> as it was on entry.
  \<open>head_id\<close> and \<open>batch_id\<close> are \<open>unsigned int\<close> and the strides they multiply here are
  \<open>int32_t\<close>: these products, and the offset of the log-sum-exp pointer, are computed in
  \<open>unsigned int\<close>.\<close>

definition advance_to_head ::
  "AttentionKernel \<Rightarrow> blockIdx \<Rightarrow> int \<Rightarrow> int \<Rightarrow> int \<Rightarrow> Params \<Rightarrow> Params" where
  "advance_to_head ak b lse_dim q_start k_start p =
    (let batch_id = int (blockIdx_z b);
         head_id = int (blockIdx_y b);
         query_start = query_start_of ak b;
         new_output_ptr =
           output_ptr p + (q_start + query_start) * o_strideM p + uint32_t (head_id * o_strideH p)
     in p\<lparr>query_ptr := query_ptr p + (q_start + query_start) * q_strideM p +
                         uint32_t (head_id * q_strideH p),
          key_ptr := key_ptr p + k_start * k_strideM p + uint32_t (head_id * k_strideH p),
          value_ptr := value_ptr p + k_start * v_strideM p + uint32_t (head_id * v_strideH p),
          output_ptr := new_output_ptr,
          mask_ptr :=
            (if mask_ptr p \<noteq> 0
             then mask_ptr p +
                  uint32_t (uint32_t (batch_id * mask_strideB p) + uint32_t (head_id * mask_strideH p))
             else mask_ptr p),
          output_accum_ptr :=
            (if output_accum_ptr p \<noteq> 0
             then output_accum_ptr p + (q_start + query_start) * o_strideM p +
                  uint32_t (head_id * o_strideH p)
             else new_output_ptr),
          logsumexp_ptr :=
            (if logsumexp_ptr p \<noteq> 0
             then logsumexp_ptr p +
                  uint32_t (batch_id * lse_dim * num_heads p + head_id * lse_dim + query_start)
             else logsumexp_ptr p),
          num_queries := num_queries p - query_start,
          num_keys :=
            (if causal p then min (query_start + int (kQueriesPerBlock ak)) (num_keys p)
             else num_keys p),
          num_batches := 0\<rparr>)"

definition advance_to_block ::
  "AttentionKernel \<Rightarrow> (int \<Rightarrow> int) \<Rightarrow> blockIdx \<Rightarrow> Params \<Rightarrow> fault + Params option" where
  "advance_to_block ak imem b p =
    (let lse_dim = ceil_div (num_queries p) kAlignLSE * kAlignLSE in
     case advance_to_batch ak imem b p of
       Inl f \<Rightarrow> Inl f
     | Inr None \<Rightarrow> Inr None
     | Inr (Some (p1, q_start, k_start)) \<Rightarrow>
         Inr (Some (advance_to_head ak b lse_dim q_start k_start p1)))"


section \<open>The attention kernel\<close>

text \<open>
  The kernel is modelled at the level of the thread block: a fragment distributed over the
  threads is the tile it represents, row \<open>accum_m\<close> and column \<open>accum_n\<close>, and the arrays
  of the shared storage are functions of the row. \<open>__syncthreads\<close> separates the phases,
  which become the successive steps below. The global memory holding \<open>scalar_t\<close> values
  (query, key, value, mask) maps an element index to the value stored there, a number, an
  infinity or not-a-number, in the representation of the accumulator arithmetic.
\<close>

type_synonym gmem = "int \<Rightarrow> accum_t"

type_synonym fragment = "nat \<Rightarrow> nat \<Rightarrow> accum_t"

text \<open>
  The state of one thread block: the \<open>ScalingCoefs\<close> of the shared storage (without the
  scratch array \<open>addition_storage\<close>), the output accumulator \<open>accum_o\<close> held in registers,
  and the block's view of the three output buffers, indexed by the row and column relative
  to the advanced pointers. The arrays \<open>m_prime\<close>, \<open>s_prime\<close> and \<open>mi\<close> have
  \<open>kQueriesPerBlock\<close> elements. The last field is not in the source: it records that a
  thread has indexed one of these arrays outside of its bounds, which is undefined in the
  source; the other fields then say nothing of the run.
\<close>

record kernel_state =
  m_prime :: "nat \<Rightarrow> accum_t"
  s_prime :: "nat \<Rightarrow> accum_t"
  mi :: "nat \<Rightarrow> accum_t"
  accum_o :: fragment
  output_accum_buffer :: fragment
  output_buffer :: fragment
  logsumexp_buffer :: "nat \<Rightarrow> accum_t"
  out_of_bounds :: bool

text \<open>
  The threads of the block, launched with \<open>blockDim = (kWarpSize, kNumWarpsPerBlock, 1)\<close>
  (\<open>getThreadsGrid\<close>): for each thread the values of \<open>lane_id()\<close>, \<open>thread_id()\<close> and
  \<open>warp_id()\<close>, that is \<open>threadIdx.x\<close> as \<open>int8_t\<close>, \<open>threadIdx.x + threadIdx.y * blockDim.x\<close>
  as \<open>int16_t\<close> and \<open>threadIdx.y\<close> as \<open>int8_t\<close>.
\<close>

definition int8_t :: "int \<Rightarrow> int" where
  "int8_t v = (v + 128) mod 256 - 128"

definition int16_t :: "int \<Rightarrow> int" where
  "int16_t v = (v + 32768) mod 65536 - 32768"

definition block_threads :: "AttentionKernel \<Rightarrow> (int \<times> int \<times> int) list" where
  "block_threads ak =
     [(int8_t (int x), int16_t (int x + int y * int kWarpSize), int8_t (int y)).
        y \<leftarrow> [0..<kNumWarpsPerBlock ak], x \<leftarrow> [0..<kWarpSize]]"

subsection \<open>The streaming softmax\<close>

text \<open>The maximum one thread finds over the columns \<open>cols\<close> it holds of row \<open>accum_m\<close>.\<close>

definition thread_max :: "bool \<Rightarrow> int \<Rightarrow> fragment \<Rightarrow> nat \<Rightarrow> nat list \<Rightarrow> accum_t" where
  "thread_max kFullColumns max_col frag accum_m cols =
     fold (\<lambda>accum_n mx.
             if kFullColumns \<or> int accum_n < max_col then fast_max mx (frag accum_m accum_n)
             else mx)
          cols NInf"

text \<open>Step (1): every thread holding part of a row folds its scaled maximum into \<open>mi\<close>
  with \<open>atomicMaxFloat\<close>.\<close>

definition softmax_update_mi ::
  "AttentionKernel \<Rightarrow> bool \<Rightarrow> int \<Rightarrow> accum_t \<Rightarrow> fragment \<Rightarrow> (nat \<Rightarrow> accum_t) \<Rightarrow> nat \<Rightarrow> accum_t" where
  "softmax_update_mi ak kFullColumns max_col scaling frag mi0 =
     (\<lambda>r. if r < kQueriesPerBlock ak
          then fold (\<lambda>cols acc.
                       atomicMaxFloat acc (thread_max kFullColumns max_col frag r cols * scaling))
                    (lane_columns ak r) (mi0 r)
          else mi0 r)"

text \<open>The exponentiated tile: \<open>frag\<close> was multiplied by \<open>scaling * kLog2e\<close>; the columns from
  \<open>max_col\<close> on become zero unless \<open>kFullColumns\<close>.\<close>

definition softmax_exp ::
  "AttentionKernel \<Rightarrow> bool \<Rightarrow> int \<Rightarrow> accum_t \<Rightarrow> fragment \<Rightarrow> (nat \<Rightarrow> accum_t) \<Rightarrow> fragment" where
  "softmax_exp ak kFullColumns max_col scaling frag mi1 =
     (\<lambda>accum_m accum_n.
        if kFullColumns \<or> int accum_n < max_col
        then exp2f ((scaling * Fin kLog2e) * frag accum_m accum_n - Fin kLog2e * mi1 accum_m)
        else Fin 0)"

text \<open>
  The parameters \<open>lane_id\<close>, \<open>thread_id\<close> and \<open>warp_id\<close> of \<open>iterative_softmax\<close> are \<open>int8_t\<close>:
  the arguments are narrowed, and from thread 128 on \<open>thread_id\<close> is negative. The rows a
  thread list addresses through \<open>thread_id\<close> under the guard \<open>thread_id < kQueriesPerBlock\<close>,
  and the rows \<open>id = warp_id * kLinesPerWarp + lane_id\<close> it addresses under the guard
  \<open>lane_id < kLinesPerWarp\<close>.
\<close>

definition narrow_thread_args :: "(int \<times> int \<times> int) list \<Rightarrow> (int \<times> int \<times> int) list" where
  "narrow_thread_args threads =
     map (\<lambda>(lane_id, thread_id, warp_id). (int8_t lane_id, int8_t thread_id, int8_t warp_id))
       threads"

definition rows_by_thread :: "AttentionKernel \<Rightarrow> (int \<times> int \<times> int) list \<Rightarrow> int list" where
  "rows_by_thread ak args =
     [thread_id. (lane_id, thread_id, warp_id) \<leftarrow> args, thread_id < int (kQueriesPerBlock ak)]"

definition rows_by_line :: "AttentionKernel \<Rightarrow> (int \<times> int \<times> int) list \<Rightarrow> int list" where
  "rows_by_line ak args =
     [warp_id * int (kLinesPerWarp ak) + lane_id.
        (lane_id, thread_id, warp_id) \<leftarrow> args, lane_id < int (kLinesPerWarp ak)]"

text \<open>
  \<open>iterative_softmax\<close>, for the threads of the block together. \<open>m_prime\<close> and \<open>s_prime\<close> are
  updated by the thread whose \<open>thread_id\<close> is the row; the row sum of the exponentiated
  tile (every thread sums the columns it holds, from \<open>total_row = 0.0\<close>, and the partial
  sums are reduced through \<open>addition_storage\<close>) is added to \<open>s_prime\<close> by the thread whose
  \<open>id\<close> is the row. Every column of the tile is held by one thread, and the order of the
  additions is immaterial without rounding.
\<close>

definition iterative_softmax ::
  "AttentionKernel \<Rightarrow> bool \<Rightarrow> bool \<Rightarrow> bool \<Rightarrow> (int \<times> int \<times> int) list \<Rightarrow> int \<Rightarrow> accum_t \<Rightarrow>
   kernel_state \<times> fragment \<Rightarrow> kernel_state \<times> fragment" where
  "iterative_softmax ak kFullColumns kIsFirst kKeepRF threads max_col scaling sf =
    (let st = fst sf;
         frag = snd sf;
         args = narrow_thread_args threads;
         by_thread = rows_by_thread ak args;
         by_line = rows_by_line ak args;
         m_prime1 = (if kIsFirst then m_prime st
                     else (\<lambda>r. if int r \<in> set by_thread then mi st r else m_prime st r));
         mi1 = softmax_update_mi ak kFullColumns max_col scaling frag (mi st);
         m_prime_exp = (\<lambda>r. exp2f (Fin kLog2e * (m_prime1 r - mi1 r)));
         m_prime2 = (\<lambda>r. if int r \<in> set by_thread then m_prime_exp r else m_prime1 r);
         s_prime1 = (\<lambda>r. if int r \<in> set by_thread then s_prime st r * m_prime_exp r
                          else s_prime st r);
         frag_o1 = (if kKeepRF \<and> \<not> kIsFirst
                    then (\<lambda>accum_m accum_n. accum_o st accum_m accum_n * m_prime2 accum_m)
                    else accum_o st);
         frag2 = softmax_exp ak kFullColumns max_col scaling frag mi1;
         s_prime2 = (\<lambda>r. if int r \<in> set by_line
                          then s_prime1 r +
                               (Fin 0 + (\<Sum>accum_n = 0..<kKeysPerBlock ak. frag2 r accum_n))
                          else s_prime1 r)
     in (st\<lparr>m_prime := m_prime2, s_prime := s_prime2, mi := mi1, accum_o := frag_o1,
            out_of_bounds :=
              out_of_bounds st \<or>
              (\<exists>i \<in> set (by_thread @ by_line). i < 0 \<or> int (kQueriesPerBlock ak) \<le> i)\<rparr>,
         frag2))"

subsection \<open>One key tile\<close>

definition problem_size_0_m :: "AttentionKernel \<Rightarrow> Params \<Rightarrow> int" where
  "problem_size_0_m ak p = min (int (kQueriesPerBlock ak)) (num_queries p)"

definition problem_size_0_n :: "AttentionKernel \<Rightarrow> Params \<Rightarrow> int \<Rightarrow> int" where
  "problem_size_0_n ak p iter_key_start = min (int (kKeysPerBlock ak)) (num_keys p - iter_key_start)"

text \<open>
  Modelled from the spec: the threadblock matrix multiply \<open>MM0::Mma\<close> and its iterators are
  CUTLASS code outside the sources at hand. Following the spec (stage 1 computes one
  query tile times key tile block of raw scores), the accumulator holds the dot product
  of query row \<open>accum_m\<close> and key row \<open>iter_key_start + accum_n\<close>, added to the cleared
  accumulator; the predicated iterators read zero outside of the problem size.
\<close>

definition MM0_accum :: "AttentionKernel \<Rightarrow> Params \<Rightarrow> gmem \<Rightarrow> int \<Rightarrow> fragment" where
  "MM0_accum ak p mem iter_key_start =
     (\<lambda>accum_m accum_n.
        Fin 0 +
        (\<Sum>d = 0..<nat (head_dim p).
           (if int accum_m < problem_size_0_m ak p
            then mem (query_ptr p + int accum_m * q_strideM p + int d) else Fin 0) *
           (if int accum_n < problem_size_0_n ak p iter_key_start
            then mem (key_ptr p + iter_key_start * k_strideM p + int accum_n * k_strideM p + int d)
            else Fin 0)))"

definition mask_iter_m :: "AttentionKernel \<Rightarrow> Params \<Rightarrow> int" where
  "mask_iter_m ak p = (if kMaskBroadcastRow ak then 1 else problem_size_0_m ak p)"

text \<open>
  Modelled from the spec: \<open>MM0::MaskLoader\<close> (\<open>TileSmemLoader\<close>) is outside the sources at
  hand. Following the spec (the mask tile is staged through shared memory), the tile in
  shared memory holds the mask elements inside the extent \<open>{mask_iter_m, problem_size_0_n}\<close>
  of the iterator and zero elsewhere.
\<close>

definition mask_tensor_ref ::
  "AttentionKernel \<Rightarrow> Params \<Rightarrow> gmem \<Rightarrow> int \<Rightarrow> int \<Rightarrow> fragment" where
  "mask_tensor_ref ak p mem query_start iter_key_start =
     (\<lambda>m n.
        if int m < mask_iter_m ak p \<and> int n < problem_size_0_n ak p iter_key_start
        then mem (mask_ptr p + query_start * mask_strideM p + iter_key_start
                   + int m * mask_strideM p + int n)
        else Fin 0)"

text \<open>\<open>if (kAddMask)\<close>: the accumulator is multiplied by \<open>p.scale\<close>, then the mask tile is
  added inside the problem size.\<close>

definition apply_mask ::
  "AttentionKernel \<Rightarrow> Params \<Rightarrow> gmem \<Rightarrow> int \<Rightarrow> int \<Rightarrow> fragment \<Rightarrow> fragment" where
  "apply_mask ak p mem query_start iter_key_start accum =
     (if kAddMask ak then
        (\<lambda>accum_m accum_n.
           if int accum_m < problem_size_0_m ak p \<and>
              int accum_n < problem_size_0_n ak p iter_key_start
           then scale p * accum accum_m accum_n +
                (if kMaskBroadcastRow ak
                 then mask_tensor_ref ak p mem query_start iter_key_start 0 accum_n
                 else mask_tensor_ref ak p mem query_start iter_key_start accum_m accum_n)
           else scale p * accum accum_m accum_n)
      else accum)"

text \<open>``Mask out last if causal''.\<close>

definition causal_mask ::
  "AttentionKernel \<Rightarrow> Params \<Rightarrow> int \<Rightarrow> int \<Rightarrow> fragment \<Rightarrow> fragment" where
  "causal_mask ak p query_start iter_key_start accum =
     (if causal p \<and> num_keys p - iter_key_start \<le> int (kKeysPerBlock ak) then
        (\<lambda>accum_m accum_n.
           let last_col = query_start + int accum_m - iter_key_start
           in if int accum_n > last_col then NInf else accum accum_m accum_n)
      else accum)"

text \<open>The last argument of the call of \<open>iterative_softmax\<close>.\<close>

definition softmax_scaling :: "AttentionKernel \<Rightarrow> Params \<Rightarrow> accum_t" where
  "softmax_scaling ak p = (if kAddMask ak then Fin 1 else scale p)"

text \<open>The score tile entering the softmax, and the softmax with its four
  \<open>DISPATCH_BOOL\<close> instances.\<close>

definition score_tile :: "AttentionKernel \<Rightarrow> Params \<Rightarrow> gmem \<Rightarrow> nat \<Rightarrow> int \<Rightarrow> fragment" where
  "score_tile ak p mem bx iter_key_start =
     (let query_start = int bx * int (kQueriesPerBlock ak)
      in causal_mask ak p query_start iter_key_start
           (apply_mask ak p mem query_start iter_key_start
              (MM0_accum ak p mem iter_key_start)))"

definition softmax_tile ::
  "AttentionKernel \<Rightarrow> Params \<Rightarrow> int \<Rightarrow> kernel_state \<times> fragment \<Rightarrow> kernel_state \<times> fragment" where
  "softmax_tile ak p iter_key_start sf =
     iterative_softmax ak
       (num_keys p - iter_key_start \<ge> int (kKeysPerBlock ak))
       (iter_key_start = 0)
       (kKeepOutputInRF ak)
       (block_threads ak)
       (int16_t (num_keys p - iter_key_start))
       (softmax_scaling ak p)
       sf"


subsection \<open>The second matrix multiply and the epilogue\<close>

definition problem_size_1_k :: "AttentionKernel \<Rightarrow> Params \<Rightarrow> int \<Rightarrow> int" where
  "problem_size_1_k ak p iter_key_start = problem_size_0_n ak p iter_key_start"

text \<open>
  Modelled from the spec: \<open>MM1::Mma\<close> (\<open>mma_from_smem.h\<close>) is outside the sources at hand.
  Following the spec (stage 2 takes the exponentiated score tile as the left operand and a
  value tile as the right operand), the product of the tile \<open>P\<close> with the value rows
  \<open>iter_key_start + n\<close> at value column \<open>c\<close>; the predicated iterator reads zero outside
  the extent \<open>{problem_size_1_k, head_dim_value}\<close>.
\<close>

definition MM1_product ::
  "AttentionKernel \<Rightarrow> Params \<Rightarrow> gmem \<Rightarrow> int \<Rightarrow> fragment \<Rightarrow> fragment" where
  "MM1_product ak p mem iter_key_start P =
     (\<lambda>m c. \<Sum>n = 0..<kKeysPerBlock ak.
               P m n *
               (if int n < problem_size_1_k ak p iter_key_start \<and> int c < head_dim_value p
                then mem (value_ptr p + iter_key_start * v_strideM p + int n * v_strideM p + int c)
                else Fin 0))"

text \<open>
  Modelled from the spec: the output operator \<open>MemoryEfficientAttentionNormalize\<close>
  (\<open>epilogue_rescale_output.h\<close>) is outside the sources at hand. Following the spec, a
  write after the first key tile adds the accumulator to the stored partial output
  rescaled by \<open>m_prime\<close> (on the first key tile there is no stored output), and the write of
  the last key tile divides by \<open>s_prime\<close>.
\<close>

definition MemoryEfficientAttentionNormalize ::
  "bool \<Rightarrow> bool \<Rightarrow> accum_t \<Rightarrow> accum_t \<Rightarrow> accum_t \<Rightarrow> accum_t \<Rightarrow> accum_t" where
  "MemoryEfficientAttentionNormalize kIsFirst kIsLast s_prime_row m_prime_row accum source =
     (let v = (if kIsFirst then accum else accum + m_prime_row * source)
      in if kIsLast then fdiv v s_prime_row else v)"

text \<open>The epilogue inside the loop (only when the output is not kept in registers): the
  destination is the output buffer on the last key tile and the accumulation buffer
  before; the tile written starts at column \<open>col\<close> and is clipped to the extent
  \<open>{num_queries, head_dim_value}\<close> of the output iterators.\<close>

definition epilogue_in_loop ::
  "AttentionKernel \<Rightarrow> Params \<Rightarrow> bool \<Rightarrow> bool \<Rightarrow> nat \<Rightarrow> kernel_state \<Rightarrow> kernel_state" where
  "epilogue_in_loop ak p kIsFirst kIsLast blockN st =
    (let col = blockN * kKeysPerBlock ak;
         in_tile = (\<lambda>m c. m < kQueriesPerBlock ak \<and> int m < num_queries p \<and>
                           col \<le> c \<and> c < col + kKeysPerBlock ak \<and> int c < head_dim_value p);
         dest = (\<lambda>m c. MemoryEfficientAttentionNormalize kIsFirst kIsLast
                          (s_prime st m) (m_prime st m)
                          (accum_o st m (c - col)) (output_accum_buffer st m c))
     in if kIsLast
        then st\<lparr>output_buffer := (\<lambda>m c. if in_tile m c then dest m c else output_buffer st m c)\<rparr>
        else st\<lparr>output_accum_buffer :=
                  (\<lambda>m c. if in_tile m c then dest m c else output_accum_buffer st m c)\<rparr>)"

text \<open>One iteration of the loop over \<open>blockN\<close>.\<close>

definition value_block ::
  "AttentionKernel \<Rightarrow> Params \<Rightarrow> gmem \<Rightarrow> int \<Rightarrow> fragment \<Rightarrow> nat \<Rightarrow> kernel_state \<Rightarrow> kernel_state" where
  "value_block ak p mem iter_key_start P blockN st =
    (let col = blockN * kKeysPerBlock ak;
         st1 = st\<lparr>accum_o :=
                    (\<lambda>m n. (if kKeepOutputInRF ak then accum_o st m n else Fin 0) +
                            MM1_product ak p mem iter_key_start P m (col + n))\<rparr>
     in if kKeepOutputInRF ak then st1
        else epilogue_in_loop ak p (iter_key_start = 0)
               (iter_key_start + int (kKeysPerBlock ak) \<ge> num_keys p) blockN st1)"

definition nBlockN :: "AttentionKernel \<Rightarrow> Params \<Rightarrow> nat" where
  "nBlockN ak p =
     (if kSingleValueIteration ak then 1
      else nat (ceil_div (head_dim_value p) (int (kKeysPerBlock ak))))"

text \<open>The body of the loop over the key tiles.\<close>

definition key_tile_iteration ::
  "AttentionKernel \<Rightarrow> Params \<Rightarrow> gmem \<Rightarrow> nat \<Rightarrow> int \<Rightarrow> kernel_state \<Rightarrow> kernel_state" where
  "key_tile_iteration ak p mem bx iter_key_start st =
    (let sf = softmax_tile ak p iter_key_start (st, score_tile ak p mem bx iter_key_start)
     in fold (value_block ak p mem iter_key_start (snd sf)) [0..<nBlockN ak p] (fst sf))"

text \<open>The loop \<open>for (iter_key_start = 0; iter_key_start < p.num_keys; iter_key_start +=
  kKeysPerBlock)\<close>. The tile width is positive by the \<open>static_assert\<close>s.\<close>

function key_loop ::
  "AttentionKernel \<Rightarrow> Params \<Rightarrow> gmem \<Rightarrow> nat \<Rightarrow> int \<Rightarrow> kernel_state \<Rightarrow> kernel_state" where
  "key_loop ak p mem bx iter_key_start st =
     (if iter_key_start < num_keys p \<and> 0 < kKeysPerBlock ak
      then key_loop ak p mem bx (iter_key_start + int (kKeysPerBlock ak))
             (key_tile_iteration ak p mem bx iter_key_start st)
      else st)"
  by pat_completeness auto
termination
  by (relation "measure (\<lambda>(ak, p, mem, bx, iter_key_start, st). nat (num_keys p - iter_key_start))")
     auto

declare key_loop.simps [simp del]

subsection \<open>The kernel\<close>

definition kernel_init :: "AttentionKernel \<Rightarrow> kernel_state \<Rightarrow> kernel_state" where
  "kernel_init ak st =
     st\<lparr>s_prime := (\<lambda>r. if r < kQueriesPerBlock ak then Fin 0 else s_prime st r),
        m_prime := (\<lambda>r. if r < kQueriesPerBlock ak then NInf else m_prime st r),
        mi := (\<lambda>r. if r < kQueriesPerBlock ak then NInf else mi st r),
        accum_o := (\<lambda>m n. Fin 0),
        out_of_bounds := False\<rparr>"

text \<open>\<open>if (kKeepOutputInRF)\<close>: the single epilogue after the loop, first and last at once.\<close>

definition epilogue_at_end :: "AttentionKernel \<Rightarrow> Params \<Rightarrow> kernel_state \<Rightarrow> kernel_state" where
  "epilogue_at_end ak p st =
     (if kKeepOutputInRF ak then
        st\<lparr>output_buffer :=
             (\<lambda>m c. if m < kQueriesPerBlock ak \<and> int m < num_queries p \<and>
                        c < kKeysPerBlock ak \<and> int c < head_dim_value p
                     then MemoryEfficientAttentionNormalize True True
                            (s_prime st m) (m_prime st m) (accum_o st m c) (Fin 0)
                     else output_buffer st m c)\<rparr>
      else st)"

text \<open>``7. Calculate logsumexp''.\<close>

definition calculate_logsumexp :: "AttentionKernel \<Rightarrow> Params \<Rightarrow> kernel_state \<Rightarrow> kernel_state" where
  "calculate_logsumexp ak p st =
     (if logsumexp_ptr p \<noteq> 0 then
        (let lse_dim = ceil_div (num_queries p) kAlignLSE * kAlignLSE
         in st\<lparr>logsumexp_buffer :=
                 (\<lambda>r. if r < kQueriesPerBlock ak then
                         if int r < num_queries p then mi st r + fast_log (s_prime st r)
                         else if int r < lse_dim then PInf
                         else logsumexp_buffer st r
                       else logsumexp_buffer st r)\<rparr>)
      else st)"

definition attention_kernel ::
  "AttentionKernel \<Rightarrow> Params \<Rightarrow> gmem \<Rightarrow> nat \<Rightarrow> kernel_state \<Rightarrow> kernel_state" where
  "attention_kernel ak p mem bx st =
     calculate_logsumexp ak p
       (epilogue_at_end ak p
          (key_loop ak p mem bx 0 (kernel_init ak st)))"

definition attention_kernel_batched_impl ::
  "AttentionKernel \<Rightarrow> (int \<Rightarrow> int) \<Rightarrow> gmem \<Rightarrow> blockIdx \<Rightarrow> Params \<Rightarrow> kernel_state \<Rightarrow>
   fault + kernel_state" where
  "attention_kernel_batched_impl ak imem mem b p st =
     (case advance_to_block ak imem b p of
        Inl f \<Rightarrow> Inl f
      | Inr None \<Rightarrow> Inr st
      | Inr (Some p') \<Rightarrow> Inr (attention_kernel ak p' mem (blockIdx_x b) st))"


section \<open>Auxiliary notions for the statements\<close>

text \<open>The number of keys of the block's batch before the causal clamp: read from the table
  of cumulative sequence lengths when there is one, \<open>p.num_keys\<close> otherwise.\<close>

definition batch_num_keys :: "(int \<Rightarrow> int) \<Rightarrow> blockIdx \<Rightarrow> Params \<Rightarrow> int" where
  "batch_num_keys imem b p =
     (if cu_seqlens_q_ptr p \<noteq> 0
      then imem (cu_seqlens_k_ptr p + int (blockIdx_z b) + 1) -
           imem (cu_seqlens_k_ptr p + int (blockIdx_z b))
      else num_keys p)"

text \<open>The natural exponential on the accumulator type, to state what the base 2
  exponentials of the kernel compute.\<close>

fun fexp :: "accum_t \<Rightarrow> accum_t" where
  "fexp NaN = NaN"
| "fexp NInf = Fin 0"
| "fexp (Fin a) = Fin (exp a)"
| "fexp NZero = Fin 1"
| "fexp PInf = PInf"

text \<open>The layout of the accumulator tile: in every row, each column of the tile is held by
  exactly one thread.\<close>

definition lane_columns_ok :: "AttentionKernel \<Rightarrow> bool" where
  "lane_columns_ok ak \<longleftrightarrow>
     (\<forall>r < kQueriesPerBlock ak. mset (concat (lane_columns ak r)) = mset [0..<kKeysPerBlock ak])"

text \<open>The fold of \<open>thread_max\<close> from any start value.\<close>

definition fold_max :: "bool \<Rightarrow> int \<Rightarrow> (nat \<Rightarrow> accum_t) \<Rightarrow> nat list \<Rightarrow> accum_t \<Rightarrow> accum_t" where
  "fold_max kFull mc f cols acc =
     fold (\<lambda>n mx. if kFull \<or> int n < mc then fast_max mx (f n) else mx) cols acc"

subsection \<open>A concrete instantiation and launch\<close>

text \<open>A tile of 32 queries by 64 keys on 16 bit scalars (two warps, the left and the right
  half of the columns), and the concrete scenario of the specification: 64 queries, 128
  keys, head dimensions 64, scale 0.125.\<close>

definition example_kernel :: AttentionKernel where
  "example_kernel =
     \<lparr>sizeof_scalar_t = 2, kQueriesPerBlock = 32, kKeysPerBlock = 64,
      kSingleValueIteration = True, kAddMask = True, kMaskBroadcastRow = False,
      kMaskIsAligned = True, MM0_kAlignmentA = 8, MM0_kAlignmentB = 8,
      lane_columns = (\<lambda>m. [[0..<32], [32..<64]])\<rparr>"

definition example_params :: Params where
  "example_params =
     \<lparr>query_ptr = 4096, key_ptr = 8192, value_ptr = 16384, mask_ptr = 32768,
      cu_seqlens_q_ptr = 0, cu_seqlens_k_ptr = 0,
      output_ptr = 65536, output_accum_ptr = 131072, logsumexp_ptr = 262144,
      scale = Fin (1 / 8), head_dim = 64, head_dim_value = 64,
      num_queries = 64, num_keys = 128, causal = True, mask_broadcast_row = False,
      q_strideM = 64, k_strideM = 64, v_strideM = 64, mask_strideM = 128,
      q_strideH = 4096, k_strideH = 8192, v_strideH = 8192, o_strideH = 4096,
      mask_strideH = 8192,
      q_strideB = 4096, k_strideB = 8192, v_strideB = 8192, o_strideB = 4096,
      mask_strideB = 8192, num_batches = 1, num_heads = 1\<rparr>"

definition example_block :: blockIdx where
  "example_block = \<lparr>blockIdx_x = 0, blockIdx_y = 0, blockIdx_z = 0\<rparr>"

definition example_state :: kernel_state where
  "example_state =
     \<lparr>m_prime = (\<lambda>r. Fin 0), s_prime = (\<lambda>r. Fin 0), mi = (\<lambda>r. Fin 0),
      accum_o = (\<lambda>m n. Fin 0), output_accum_buffer = (\<lambda>m c. Fin 0),
      output_buffer = (\<lambda>m c. Fin 0), logsumexp_buffer = (\<lambda>r. Fin 0),
      out_of_bounds = False\<rparr>"

text \<open>The parameters of block \<open>(0, 0, 0)\<close> of that launch after \<open>advance_to_block\<close>: the
  32 keys of the causal clamp.\<close>

definition example_block_params :: Params where
  "example_block_params = example_params\<lparr>num_keys := 32, num_batches := 0\<rparr>"

text \<open>The instantiation without a mask, on one key with the scale \<open>-1\<close> and without
  \<open>causal\<close>: the key tile is a partial one.\<close>

definition unmasked_kernel :: AttentionKernel where
  "unmasked_kernel = example_kernel\<lparr>kAddMask := False\<rparr>"

definition negative_scale_params :: Params where
  "negative_scale_params =
     example_block_params\<lparr>scale := Fin (- 1), num_keys := 1, causal := False\<rparr>"

text \<open>A tile of 32 queries by 96 keys, which passes the \<open>static_assert\<close>s: three warps,
  \<open>kLinesPerWarp = 10\<close>, and no thread with \<open>id\<close> 30 or 31.\<close>

definition wide_kernel :: AttentionKernel where
  "wide_kernel =
     example_kernel\<lparr>kKeysPerBlock := 96,
                    lane_columns := (\<lambda>m. [[0..<32], [32..<64], [64..<96]])\<rparr>"

section \<open>Facts about the arithmetic\<close>

lemma smod_eq_0_iff_dvd: "(k::int) smod l = 0 \<longleftrightarrow> l dvd k"
proof -
  have "k smod l = 0 \<longleftrightarrow> \<bar>k\<bar> mod \<bar>l\<bar> = 0"
    by (auto simp: signed_modulo_int_def sgn_if)
  also have "\<dots> \<longleftrightarrow> \<bar>l\<bar> dvd \<bar>k\<bar>"
    by (simp add: mod_eq_0_iff_dvd)
  also have "\<dots> \<longleftrightarrow> l dvd k" by simp
  finally show ?thesis .
qed

lemma ceil_div_kAlignLSE:
  assumes "0 \<le> n"
  shows "ceil_div n kAlignLSE * kAlignLSE = \<lceil>real_of_int n / real_of_int kAlignLSE\<rceil> * kAlignLSE"
proof -
  have "(n + 31) sdiv 32 = (n + 31) div 32"
    using assms by (simp add: signed_divide_int_def sgn_if)
  moreover have "\<lceil>real_of_int n / 32\<rceil> = (n + 31) div 32"
  proof -
    have "\<lceil>real_of_int n / real_of_int 32\<rceil> = - \<lfloor>real_of_int (- n) / real_of_int 32\<rfloor>"
      unfolding ceiling_def by simp
    also have "\<dots> = - ((- n) div 32)"
      by (simp only: floor_divide_of_int_eq)
    also have "\<dots> = (n + 31) div 32"
      by linarith
    finally show ?thesis by simp
  qed
  ultimately show ?thesis by (simp add: ceil_div_def kAlignLSE_def add.commute)
qed

section \<open>Host-side validation\<close>

text \<open>
  C9. \<open>check_supported\<close> accepts a parameter set exactly when the query, key and value
  pointers, and the mask pointer when there is a mask, are aligned to their alignments,
  and the per-row and per-head strides of query, key and value, and the per-row, per-head
  and per-batch strides of the mask when there is one, are multiples of them. The function
  reads its argument and returns a truth value: it does no other work.
\<close>

theorem check_supported_iff:
  "check_supported ak p \<longleftrightarrow>
     kAlignmentQ ak dvd ptr_address ak (query_ptr p) \<and>
     kAlignmentK ak dvd ptr_address ak (key_ptr p) \<and>
     kAlignmentV dvd ptr_address ak (value_ptr p) \<and>
     (mask_ptr p \<noteq> 0 \<longrightarrow>
        kAlignmentM ak dvd ptr_address ak (mask_ptr p) \<and>
        kAlignmentM ak dvd mask_strideM p \<and>
        kAlignmentM ak dvd mask_strideH p \<and>
        kAlignmentM ak dvd mask_strideB p) \<and>
     kAlignmentQ ak dvd q_strideM p \<and> kAlignmentK ak dvd k_strideM p \<and>
     kAlignmentV dvd v_strideM p \<and>
     kAlignmentQ ak dvd q_strideH p \<and> kAlignmentK ak dvd k_strideH p \<and>
     kAlignmentV dvd v_strideH p"
  unfolding check_supported_def CHECK_ALIGNED_PTR_def smod_eq_0_iff_dvd mod_eq_0_iff_dvd
  by (cases "mask_ptr p = 0") (simp_all add: ptr_address_def)

theorem check_supported_iff_witness:
  "mask_ptr example_params \<noteq> 0 \<and> check_supported example_kernel example_params \<and>
   \<not> check_supported example_kernel (example_params\<lparr>mask_strideB := 4\<rparr>)"
  using check_supported_iff[of example_kernel example_params]
        check_supported_iff[of example_kernel "example_params\<lparr>mask_strideB := 4\<rparr>"]
  by (simp add: example_kernel_def example_params_def kAlignmentQ_def kAlignmentK_def
      kAlignmentV_def kAlignmentM_def ptr_address_def)

section \<open>The tile coordinate resolver\<close>

lemma advance_to_block_num_keys:
  assumes "advance_to_block ak imem b p = Inr (Some p')"
  shows "causal p' = causal p"
    and "num_keys p' =
           (if causal p
            then min (query_start_of ak b + int (kQueriesPerBlock ak)) (batch_num_keys imem b p)
            else batch_num_keys imem b p)"
  using assms
  by (auto simp: advance_to_block_def advance_to_batch_def advance_to_head_def Let_def
      batch_num_keys_def split: if_splits)

text \<open>
  C4. With \<open>causal\<close> set, the resolver leaves in \<open>num_keys\<close> the minimum of the end of the
  query tile and the number of keys of the batch; and the causal masking step overwrites
  with minus infinity exactly the scores whose key position exceeds their query position,
  and only in the iteration with \<open>num_keys - iter_key_start \<le> kKeysPerBlock\<close>: in every
  other iteration it leaves the tile as it is.
\<close>

theorem causal_clamp_and_last_tile:
  assumes "causal p" and "advance_to_block ak imem b p = Inr (Some p')"
  shows "num_keys p' =
           min (query_start_of ak b + int (kQueriesPerBlock ak)) (batch_num_keys imem b p) \<and>
         causal_mask ak p' query_start iter_key_start accum accum_m accum_n =
           (if num_keys p' - iter_key_start \<le> int (kKeysPerBlock ak) \<and>
               iter_key_start + int accum_n > query_start + int accum_m
            then NInf else accum accum_m accum_n)"
  using advance_to_block_num_keys[OF assms(2)] assms(1)
  by (auto simp: causal_mask_def Let_def)

theorem causal_clamp_and_last_tile_witness:
  "num_keys (example_params\<lparr>num_keys := 32, num_batches := 0\<rparr>) =
     min (query_start_of example_kernel example_block + int (kQueriesPerBlock example_kernel))
         (batch_num_keys (\<lambda>a. 0) example_block example_params) \<and>
   causal_mask example_kernel (example_params\<lparr>num_keys := 32, num_batches := 0\<rparr>) 0 0
       (\<lambda>m n. 0) 0 1 = NInf"
proof -
  have 1: "causal example_params" by (simp add: example_params_def)
  have 2: "advance_to_block example_kernel (\<lambda>a. 0) example_block example_params =
             Inr (Some (example_params\<lparr>num_keys := 32, num_batches := 0\<rparr>))"
    by (simp add: advance_to_block_def advance_to_batch_def advance_to_head_def Let_def
        example_params_def example_block_def example_kernel_def query_start_of_def o_strideM_def
        uint32_t_def)
  show ?thesis
    using causal_clamp_and_last_tile[OF 1 2, of 0 0 "\<lambda>m n. 0" 0 1]
    by (simp add: example_params_def example_kernel_def)
qed

section \<open>The log-sum-exp output\<close>

text \<open>
  C8. When a log-sum-exp buffer is requested, after all key tiles every row \<open>r\<close> of the tile
  below the block's remaining query count receives \<open>mi[r] + log(s_prime[r])\<close>, and every
  row of the tile from the query count up to the query count rounded up to a multiple of
  \<open>kAlignLSE = 32\<close> receives plus infinity.
\<close>

theorem logsumexp_rows:
  assumes "logsumexp_ptr p \<noteq> 0" and "r < kQueriesPerBlock ak"
  shows "kAlignLSE = 32 \<and>
     (int r < num_queries p \<longrightarrow>
        logsumexp_buffer (attention_kernel ak p mem bx st) r =
          mi (key_loop ak p mem bx 0 (kernel_init ak st)) r +
          fast_log (s_prime (key_loop ak p mem bx 0 (kernel_init ak st)) r)) \<and>
     (num_queries p \<le> int r \<and>
      int r < \<lceil>real_of_int (num_queries p) / real_of_int kAlignLSE\<rceil> * kAlignLSE \<longrightarrow>
        logsumexp_buffer (attention_kernel ak p mem bx st) r = PInf)"
proof (intro conjI impI)
  show "kAlignLSE = 32" by (simp add: kAlignLSE_def)
next
  assume "int r < num_queries p"
  then show "logsumexp_buffer (attention_kernel ak p mem bx st) r =
          mi (key_loop ak p mem bx 0 (kernel_init ak st)) r +
          fast_log (s_prime (key_loop ak p mem bx 0 (kernel_init ak st)) r)"
    using assms by (simp add: attention_kernel_def calculate_logsumexp_def epilogue_at_end_def)
next
  assume h: "num_queries p \<le> int r \<and>
      int r < \<lceil>real_of_int (num_queries p) / real_of_int kAlignLSE\<rceil> * kAlignLSE"
  have nonneg: "0 \<le> num_queries p"
  proof (rule ccontr)
    assume "\<not> 0 \<le> num_queries p"
    then have "real_of_int (num_queries p) / real_of_int kAlignLSE \<le> 0"
      by (simp add: kAlignLSE_def)
    then have "\<lceil>real_of_int (num_queries p) / real_of_int kAlignLSE\<rceil> \<le> 0"
      by (simp add: ceiling_le_zero)
    then have "\<lceil>real_of_int (num_queries p) / real_of_int kAlignLSE\<rceil> * kAlignLSE \<le> 0"
      by (simp add: kAlignLSE_def)
    with h show False by linarith
  qed
  from h have "int r < ceil_div (num_queries p) kAlignLSE * kAlignLSE"
    by (simp add: ceil_div_kAlignLSE[OF nonneg])
  with h show "logsumexp_buffer (attention_kernel ak p mem bx st) r = PInf"
    using assms by (simp add: attention_kernel_def calculate_logsumexp_def)
qed

theorem logsumexp_rows_witness:
  "logsumexp_buffer
      (attention_kernel example_kernel (example_params\<lparr>num_queries := 20\<rparr>) (\<lambda>a. 0) 0
         example_state) 3 =
     mi (key_loop example_kernel (example_params\<lparr>num_queries := 20\<rparr>) (\<lambda>a. 0) 0 0
           (kernel_init example_kernel example_state)) 3 +
     fast_log (s_prime (key_loop example_kernel (example_params\<lparr>num_queries := 20\<rparr>) (\<lambda>a. 0) 0 0
           (kernel_init example_kernel example_state)) 3) \<and>
   logsumexp_buffer
      (attention_kernel example_kernel (example_params\<lparr>num_queries := 20\<rparr>) (\<lambda>a. 0) 0
         example_state) 25 =
     PInf"
proof -
  have 1: "logsumexp_ptr (example_params\<lparr>num_queries := 20\<rparr>) \<noteq> 0"
    by (simp add: example_params_def)
  have 2: "3 < kQueriesPerBlock example_kernel" "25 < kQueriesPerBlock example_kernel"
    by (simp_all add: example_kernel_def)
  have 3: "\<lceil>real_of_int 20 / real_of_int kAlignLSE\<rceil> * kAlignLSE = 32"
    by (simp add: kAlignLSE_def)
  show ?thesis
    using logsumexp_rows[OF 1 2(1), of "\<lambda>a. 0" 0 example_state]
          logsumexp_rows[OF 1 2(2), of "\<lambda>a. 0" 0 example_state] 3
    by (simp add: example_params_def)
qed

section \<open>The run-time field \<open>mask_broadcast_row\<close>\<close>

lemma mask_broadcast_row_sizes:
  "problem_size_0_m ak (p\<lparr>mask_broadcast_row := v\<rparr>) = problem_size_0_m ak p"
  "problem_size_0_n ak (p\<lparr>mask_broadcast_row := v\<rparr>) = problem_size_0_n ak p"
  "problem_size_1_k ak (p\<lparr>mask_broadcast_row := v\<rparr>) = problem_size_1_k ak p"
  "mask_iter_m ak (p\<lparr>mask_broadcast_row := v\<rparr>) = mask_iter_m ak p"
  "softmax_scaling ak (p\<lparr>mask_broadcast_row := v\<rparr>) = softmax_scaling ak p"
  "nBlockN ak (p\<lparr>mask_broadcast_row := v\<rparr>) = nBlockN ak p"
  by (simp_all add: problem_size_0_m_def problem_size_0_n_def problem_size_1_k_def
      mask_iter_m_def softmax_scaling_def nBlockN_def fun_eq_iff)

lemma mask_broadcast_row_tiles:
  "MM0_accum ak (p\<lparr>mask_broadcast_row := v\<rparr>) = MM0_accum ak p"
  "mask_tensor_ref ak (p\<lparr>mask_broadcast_row := v\<rparr>) = mask_tensor_ref ak p"
  "apply_mask ak (p\<lparr>mask_broadcast_row := v\<rparr>) = apply_mask ak p"
  "causal_mask ak (p\<lparr>mask_broadcast_row := v\<rparr>) = causal_mask ak p"
  "MM1_product ak (p\<lparr>mask_broadcast_row := v\<rparr>) = MM1_product ak p"
  by (simp_all add: MM0_accum_def mask_tensor_ref_def apply_mask_def causal_mask_def
      MM1_product_def mask_broadcast_row_sizes fun_eq_iff cong: if_cong)

lemma mask_broadcast_row_key_tile_iteration:
  "key_tile_iteration ak (p\<lparr>mask_broadcast_row := v\<rparr>) = key_tile_iteration ak p"
proof -
  have 1: "score_tile ak (p\<lparr>mask_broadcast_row := v\<rparr>) = score_tile ak p"
    by (simp add: score_tile_def mask_broadcast_row_tiles fun_eq_iff)
  have 2: "softmax_tile ak (p\<lparr>mask_broadcast_row := v\<rparr>) = softmax_tile ak p"
    by (simp add: softmax_tile_def mask_broadcast_row_sizes fun_eq_iff)
  have 3: "epilogue_in_loop ak (p\<lparr>mask_broadcast_row := v\<rparr>) = epilogue_in_loop ak p"
    by (simp add: epilogue_in_loop_def fun_eq_iff cong: if_cong)
  have 4: "value_block ak (p\<lparr>mask_broadcast_row := v\<rparr>) = value_block ak p"
    by (simp add: value_block_def mask_broadcast_row_tiles 3 fun_eq_iff cong: if_cong)
  show ?thesis
    by (simp add: key_tile_iteration_def 1 2 4 mask_broadcast_row_sizes fun_eq_iff)
qed

lemma mask_broadcast_row_key_loop:
  "key_loop ak (p\<lparr>mask_broadcast_row := v\<rparr>) mem bx iks st = key_loop ak p mem bx iks st"
proof (induction ak p mem bx iks st rule: key_loop.induct)
  case (1 ak p mem bx iks st)
  then show ?case
    by (subst key_loop.simps, subst (2) key_loop.simps)
       (simp add: mask_broadcast_row_key_tile_iteration)
qed

lemma mask_broadcast_row_attention_kernel:
  "attention_kernel ak (p\<lparr>mask_broadcast_row := v\<rparr>) mem bx st = attention_kernel ak p mem bx st"
proof -
  have 1: "epilogue_at_end ak (p\<lparr>mask_broadcast_row := v\<rparr>) = epilogue_at_end ak p"
    by (simp add: epilogue_at_end_def fun_eq_iff cong: if_cong)
  have 2: "calculate_logsumexp ak (p\<lparr>mask_broadcast_row := v\<rparr>) = calculate_logsumexp ak p"
    by (simp add: calculate_logsumexp_def fun_eq_iff cong: if_cong)
  show ?thesis
    by (simp add: attention_kernel_def mask_broadcast_row_key_loop 1 2)
qed

lemma mask_broadcast_row_advance_to_block:
  "advance_to_block ak imem b (p\<lparr>mask_broadcast_row := v\<rparr>) =
     map_sum id (map_option (\<lambda>q. q\<lparr>mask_broadcast_row := v\<rparr>)) (advance_to_block ak imem b p)"
  by (simp add: advance_to_block_def advance_to_batch_def advance_to_head_def Let_def o_strideM_def)

text \<open>
  C10. The kernel never reads the run-time field \<open>mask_broadcast_row\<close> of its parameters:
  two parameter sets that differ in this field only give the same output, the same
  log-sum-exp values and the same state altogether. Whether the mask is broadcast is
  decided by the template parameter \<open>kMaskBroadcastRow\<close>.
\<close>

theorem runtime_mask_broadcast_row_unused:
  "attention_kernel_batched_impl ak imem mem b (p\<lparr>mask_broadcast_row := v\<rparr>) st =
   attention_kernel_batched_impl ak imem mem b p st"
  by (cases "advance_to_block ak imem b p")
     (auto simp: attention_kernel_batched_impl_def mask_broadcast_row_advance_to_block
        mask_broadcast_row_attention_kernel split: option.splits)

section \<open>The loop over the key tiles\<close>



section \<open>Broadcasting the mask over the rows\<close>












section \<open>Scaling and the additive mask\<close>

lemma times_Fin_1 [simp]: "x * Fin 1 = x" "Fin 1 * x = x"
  by (cases x; simp add: signed_zero_def signed_inf_def)+

lemma Fin_add_sum_Fin: "Fin a + (\<Sum>i \<in> A. Fin (f i)) = Fin (a + (\<Sum>i \<in> A. f i))"
proof (induction A arbitrary: a rule: infinite_finite_induct)
  case (infinite A)
  then show ?case by (simp add: zero_accum_t_def)
next
  case empty
  then show ?case by (simp add: zero_accum_t_def)
next
  case (insert x F)
  have "Fin a + (Fin (f x) + (\<Sum>i \<in> F. Fin (f i))) = Fin (a + f x) + (\<Sum>i \<in> F. Fin (f i))"
    by (simp flip: add.assoc)
  then show ?case using insert by (simp add: add.assoc)
qed




section \<open>The threads of the block\<close>

lemma int8_t_id: "- 128 \<le> v \<Longrightarrow> v < 128 \<Longrightarrow> int8_t v = v"
  by (simp add: int8_t_def)

lemma int16_t_id: "- 32768 \<le> v \<Longrightarrow> v < 32768 \<Longrightarrow> int16_t v = v"
  by (simp add: int16_t_def)

lemma block_threads_narrow:
  assumes "kNumThreads ak \<le> 128"
  shows "narrow_thread_args (block_threads ak) =
         [(int x, int x + int y * 32, int y). y \<leftarrow> [0..<kNumWarpsPerBlock ak], x \<leftarrow> [0..<32]]"
proof -
  have W: "kNumWarpsPerBlock ak \<le> 4"
    using assms by (simp add: kNumThreads_def kWarpSize_def)
  have "(case (int8_t (int x), int16_t (int x + int y * 32), int8_t (int y)) of
           (lane_id, thread_id, warp_id) \<Rightarrow> (int8_t lane_id, int8_t thread_id, int8_t warp_id)) =
        (int x, int x + int y * 32, int y)"
    if "y < kNumWarpsPerBlock ak" "x < 32" for x y
  proof -
    have "int x + int y * 32 < 128" "0 \<le> int x + int y * 32" "int y < 128" "int x < 128"
      using that W by auto
    then show ?thesis by (simp add: int8_t_id int16_t_id)
  qed
  then show ?thesis
    unfolding narrow_thread_args_def block_threads_def kWarpSize_def map_concat
    by (auto simp: comp_def intro!: arg_cong[where f = concat] map_cong)
qed

lemma set_rows_by_thread:
  assumes "kNumThreads ak \<le> 128"
  shows "set (rows_by_thread ak (narrow_thread_args (block_threads ak))) =
         {int x + int y * 32 | x y. y < kNumWarpsPerBlock ak \<and> x < 32 \<and>
                                  int x + int y * 32 < int (kQueriesPerBlock ak)}"
  unfolding block_threads_narrow[OF assms] rows_by_thread_def by (auto, blast)

lemma set_rows_by_line:
  assumes "kNumThreads ak \<le> 128"
  shows "set (rows_by_line ak (narrow_thread_args (block_threads ak))) =
         {int y * int (kLinesPerWarp ak) + int x | x y.
            y < kNumWarpsPerBlock ak \<and> x < 32 \<and> x < kLinesPerWarp ak}"
  unfolding block_threads_narrow[OF assms] rows_by_line_def by (auto, blast)

lemma kLinesPerWarp_less:
  assumes "static_asserts ak"
  shows "kLinesPerWarp ak < 32" and "0 < kNumWarpsPerBlock ak"
    and "kNumWarpsPerBlock ak * kLinesPerWarp ak \<le> kQueriesPerBlock ak"
proof -
  have q: "kQueriesPerBlock ak < kNumWarpsPerBlock ak * 32"
    using assms(1) by (simp add: static_asserts_def kWarpSize_def)
  then show W: "0 < kNumWarpsPerBlock ak" by (cases "kNumWarpsPerBlock ak") auto
  show "kLinesPerWarp ak < 32"
    unfolding kLinesPerWarp_def using q W by (simp add: div_less_iff_less_mult mult.commute)
  show "kNumWarpsPerBlock ak * kLinesPerWarp ak \<le> kQueriesPerBlock ak"
    unfolding kLinesPerWarp_def by simp
qed

lemma rows_by_thread_block:
  assumes "static_asserts ak" and "kNumThreads ak \<le> 128"
  shows "int r \<in> set (rows_by_thread ak (narrow_thread_args (block_threads ak))) \<longleftrightarrow>
         r < kQueriesPerBlock ak"
proof -
  have q: "kQueriesPerBlock ak < kNumWarpsPerBlock ak * 32"
    using assms(1) by (simp add: static_asserts_def kWarpSize_def)
  show ?thesis
  proof
    assume "int r \<in> set (rows_by_thread ak (narrow_thread_args (block_threads ak)))"
    then show "r < kQueriesPerBlock ak"
      unfolding set_rows_by_thread[OF assms(2)] by auto
  next
    assume r: "r < kQueriesPerBlock ak"
    then have 1: "r div 32 < kNumWarpsPerBlock ak" using q by (simp add: less_mult_imp_div_less)
    have 2: "r mod 32 < 32" by simp
    have "int r = int (r mod 32 + r div 32 * 32)" by simp
    then have 3: "int r = int (r mod 32) + int (r div 32) * 32"
      by (simp only: of_nat_add of_nat_mult of_nat_numeral)
    have 4: "int (r mod 32) + int (r div 32) * 32 < int (kQueriesPerBlock ak)"
      using r 3 by simp
    show "int r \<in> set (rows_by_thread ak (narrow_thread_args (block_threads ak)))"
      unfolding set_rows_by_thread[OF assms(2)] using 1 2 3 4 by blast
  qed
qed

lemma rows_by_line_block:
  assumes "static_asserts ak" and "kNumThreads ak \<le> 128"
  shows "int r \<in> set (rows_by_line ak (narrow_thread_args (block_threads ak))) \<longleftrightarrow>
         r < kNumWarpsPerBlock ak * kLinesPerWarp ak"
proof -
  note L = kLinesPerWarp_less[OF assms(1)]
  show ?thesis
  proof
    assume "int r \<in> set (rows_by_line ak (narrow_thread_args (block_threads ak)))"
    then obtain x y where xy: "y < kNumWarpsPerBlock ak" "x < kLinesPerWarp ak"
        "int r = int y * int (kLinesPerWarp ak) + int x"
      unfolding set_rows_by_line[OF assms(2)] by auto
    from xy(3) have "int r = int (y * kLinesPerWarp ak + x)" by simp
    then have "r = y * kLinesPerWarp ak + x" by (simp only: of_nat_eq_iff)
    also have "\<dots> < (y + 1) * kLinesPerWarp ak" using xy(2) by simp
    also have "\<dots> \<le> kNumWarpsPerBlock ak * kLinesPerWarp ak"
      using xy(1) by (intro mult_le_mono1) simp
    finally show "r < kNumWarpsPerBlock ak * kLinesPerWarp ak" .
  next
    assume r: "r < kNumWarpsPerBlock ak * kLinesPerWarp ak"
    then have pos: "0 < kLinesPerWarp ak" by (cases "kLinesPerWarp ak") auto
    have 1: "r div kLinesPerWarp ak < kNumWarpsPerBlock ak"
      using r pos by (simp add: less_mult_imp_div_less)
    have 2: "r mod kLinesPerWarp ak < kLinesPerWarp ak" using pos by simp
    have 3: "r mod kLinesPerWarp ak < 32" using L(1) 2 by simp
    have "int r = int (r div kLinesPerWarp ak * kLinesPerWarp ak + r mod kLinesPerWarp ak)"
      by simp
    then have 4: "int r = int (r div kLinesPerWarp ak) * int (kLinesPerWarp ak) +
                           int (r mod kLinesPerWarp ak)"
      by (simp only: of_nat_add of_nat_mult)
    show "int r \<in> set (rows_by_line ak (narrow_thread_args (block_threads ak)))"
      unfolding set_rows_by_line[OF assms(2)] using 1 2 3 4 by blast
  qed
qed

lemma block_in_bounds:
  assumes "static_asserts ak" and "kNumThreads ak \<le> 128"
      and "i \<in> set (rows_by_thread ak (narrow_thread_args (block_threads ak)) @
                    rows_by_line ak (narrow_thread_args (block_threads ak)))"
  shows "0 \<le> i \<and> i < int (kQueriesPerBlock ak)"
proof -
  note L = kLinesPerWarp_less[OF assms(1)]
  from assms(3) consider
    (t) "i \<in> set (rows_by_thread ak (narrow_thread_args (block_threads ak)))" |
    (l) "i \<in> set (rows_by_line ak (narrow_thread_args (block_threads ak)))"
    by auto
  then show ?thesis
  proof cases
    case t
    then show ?thesis
      unfolding set_rows_by_thread[OF assms(2)] by auto
  next
    case l
    then obtain x y where xy: "y < kNumWarpsPerBlock ak" "x < kLinesPerWarp ak"
        "i = int y * int (kLinesPerWarp ak) + int x"
      unfolding set_rows_by_line[OF assms(2)] by auto
    have "y * kLinesPerWarp ak + x < (y + 1) * kLinesPerWarp ak" using xy(2) by simp
    also have "\<dots> \<le> kNumWarpsPerBlock ak * kLinesPerWarp ak"
      using xy(1) by (intro mult_le_mono1) simp
    also have "\<dots> \<le> kQueriesPerBlock ak" by (rule L(3))
    finally have "int (y * kLinesPerWarp ak + x) < int (kQueriesPerBlock ak)"
      by (simp only: of_nat_less_iff)
    then have "int y * int (kLinesPerWarp ak) + int x < int (kQueriesPerBlock ak)"
      by (simp only: of_nat_add of_nat_mult)
    then show ?thesis using xy(3) by simp
  qed
qed

lemma iterative_softmax_in_bounds:
  assumes "static_asserts ak" and "kNumThreads ak \<le> 128"
  shows "out_of_bounds (fst (iterative_softmax ak kFull kFirst kKeep (block_threads ak) mc sc sf)) =
         out_of_bounds (fst sf)"
proof -
  have "\<not> (\<exists>i \<in> set (rows_by_thread ak (narrow_thread_args (block_threads ak)) @
                       rows_by_line ak (narrow_thread_args (block_threads ak))).
             i < 0 \<or> int (kQueriesPerBlock ak) \<le> i)"
    using block_in_bounds[OF assms] by fastforce
  then show ?thesis
    by (simp add: iterative_softmax_def Let_def del: set_append)
qed

lemma example_static_asserts: "static_asserts example_kernel"
  by (simp add: static_asserts_def example_kernel_def kNumWarpsPerBlock_def kWarpSize_def)

lemma example_threads:
  "kNumThreads example_kernel \<le> 128" "kNumWarpsPerBlock example_kernel = 2"
  "kLinesPerWarp example_kernel = 16"
  by (simp_all add: example_kernel_def kNumThreads_def kNumWarpsPerBlock_def kWarpSize_def
      kLinesPerWarp_def)

section \<open>Columns beyond the last key\<close>

lemma int16_t_le: "0 \<le> v \<Longrightarrow> int16_t v \<le> v"
proof -
  assume "0 \<le> v"
  then have "(v + 32768) mod 65536 \<le> v + 32768"
    by (intro zmod_le_nonneg_dividend) simp
  then show ?thesis by (simp add: int16_t_def)
qed

lemma fold_if_filter:
  "fold (\<lambda>n mx. if P n then g n mx else mx) cols a = fold g (filter P cols) a"
  by (induction cols arbitrary: a) simp_all

lemma thread_max_filter:
  "thread_max False mc f r cols =
     fold (\<lambda>n mx. fast_max mx (f r n)) (filter (\<lambda>n. int n < mc) cols) NInf"
  unfolding thread_max_def using fold_if_filter[of "\<lambda>n. int n < mc" "\<lambda>n mx. fast_max mx (f r n)"]
  by simp

lemma Fin_0_add_sum_if:
  assumes "finite A"
  shows "Fin 0 + (\<Sum>n \<in> A. if P n then w n else Fin 0) = Fin 0 + (\<Sum>n \<in> {n \<in> A. P n}. w n)"
  using assms
proof (induction A)
  case empty
  then show ?case by simp
next
  case (insert x F)
  let ?g = "\<lambda>n. if P n then w n else Fin 0"
  have "Fin 0 + (\<Sum>n \<in> insert x F. ?g n) = ?g x + (Fin 0 + (\<Sum>n \<in> F. ?g n))"
    using insert.hyps by (simp add: add.left_commute)
  also have "\<dots> = ?g x + (Fin 0 + (\<Sum>n \<in> {n \<in> F. P n}. w n))"
    by (simp only: insert.IH)
  also have "\<dots> = Fin 0 + (\<Sum>n \<in> {n \<in> insert x F. P n}. w n)"
  proof (cases "P x")
    case True
    then have "{n \<in> insert x F. P n} = insert x {n \<in> F. P n}" by auto
    moreover have "x \<notin> {n \<in> F. P n}" using insert by simp
    moreover have "finite {n \<in> F. P n}" using insert by simp
    ultimately show ?thesis using True by (simp add: add.left_commute)
  next
    case False
    then have "{n \<in> insert x F. P n} = {n \<in> F. P n}" by auto
    moreover have "Fin 0 + (Fin 0 + y) = Fin 0 + y" for y :: accum_t
      by (cases y) simp_all
    ultimately show ?thesis using False by simp
  qed
  finally show ?case .
qed

lemma thread_max_cong:
  assumes "\<And>n. n \<in> set cols \<Longrightarrow> kFull \<or> int n < mc \<Longrightarrow> f r n = g r n"
  shows "thread_max kFull mc f r cols = thread_max kFull mc g r cols"
  unfolding thread_max_def
  by (rule fold_cong) (use assms in auto)

lemma softmax_update_mi_cong:
  assumes "\<And>n. kFull \<or> int n < mc \<Longrightarrow> f r n = g r n" and "mi1 r = mi2 r"
  shows "softmax_update_mi ak kFull mc scaling f mi1 r = softmax_update_mi ak kFull mc scaling g mi2 r"
proof -
  have "\<And>cols. thread_max kFull mc f r cols = thread_max kFull mc g r cols"
    by (rule thread_max_cong) (use assms in auto)
  then show ?thesis using assms(2) by (simp add: softmax_update_mi_def)
qed

lemma softmax_exp_cong:
  assumes "\<And>n. kFull \<or> int n < mc \<Longrightarrow> f r n = g r n" and "mi1 r = mi2 r"
  shows "softmax_exp ak kFull mc scaling f mi1 r = softmax_exp ak kFull mc scaling g mi2 r"
  using assms by (auto simp: softmax_exp_def fun_eq_iff)

lemma iterative_softmax_cong:
  assumes "\<And>r n. kFull \<or> int n < mc \<Longrightarrow> f r n = g r n"
  shows "iterative_softmax ak kFull kFirst kKeep threads mc sc (st, f) =
         iterative_softmax ak kFull kFirst kKeep threads mc sc (st, g)"
proof -
  have 1: "softmax_update_mi ak kFull mc sc f (mi st) = softmax_update_mi ak kFull mc sc g (mi st)"
    by (rule ext) (rule softmax_update_mi_cong, use assms in auto)
  have 2: "softmax_exp ak kFull mc sc f mm = softmax_exp ak kFull mc sc g mm" for mm
    by (rule ext) (rule softmax_exp_cong, use assms in auto)
  show ?thesis
    unfolding iterative_softmax_def Let_def fst_conv snd_conv 1 2 by (rule refl)
qed

lemma fold_fast_max_const:
  assumes "\<forall>n \<in> set xs. g n = Fin a" and "acc = Fin a \<or> (acc = NInf \<and> xs \<noteq> [])"
  shows "fold (\<lambda>n mx. fast_max mx (g n)) xs acc = Fin a"
  using assms by (induction xs arbitrary: acc) auto

lemma kLog2e_pos: "0 < kLog2e"
  by (simp add: kLog2e_def)

text \<open>
  C5. On a partial last key tile (\<open>num_keys - iter_key_start\<close> is less than the tile width)
  the score columns from \<open>num_keys - iter_key_start\<close> on are left out of the softmax: their
  weight is \<open>0.0\<close>; the running maximum of a row is folded from the thread maxima over the
  columns below \<open>num_keys - iter_key_start\<close> only (and, of these, below \<open>max_col\<close>, the same
  difference as \<open>int16_t\<close>); the running sum grows by the sum of the weights of these
  columns only; and the whole result of the step does not depend on the scores in the
  columns from \<open>num_keys - iter_key_start\<close> on, whatever they hold.
\<close>

theorem partial_tile_columns_excluded:
  assumes "iter_key_start < num_keys p"
      and "num_keys p - iter_key_start < int (kKeysPerBlock ak)"
  shows "(\<forall>m n. num_keys p - iter_key_start \<le> int n \<longrightarrow>
            snd (softmax_tile ak p iter_key_start (st, frag)) m n = Fin 0) \<and>
         (\<forall>r < kQueriesPerBlock ak.
            mi (fst (softmax_tile ak p iter_key_start (st, frag))) r =
              fold (\<lambda>cols acc.
                      atomicMaxFloat acc
                        (fold (\<lambda>n mx. fast_max mx (frag r n))
                           [n \<leftarrow> cols. int n < num_keys p - iter_key_start \<and>
                                        int n < int16_t (num_keys p - iter_key_start)]
                           NInf * softmax_scaling ak p))
                   (lane_columns ak r) (mi st r)) \<and>
         (\<forall>r. int r \<in> set (rows_by_line ak (narrow_thread_args (block_threads ak))) \<longrightarrow>
            s_prime (fst (softmax_tile ak p iter_key_start (st, frag))) r =
              (if int r \<in> set (rows_by_thread ak (narrow_thread_args (block_threads ak)))
               then s_prime st r * m_prime (fst (softmax_tile ak p iter_key_start (st, frag))) r
               else s_prime st r) +
              (Fin 0 +
               (\<Sum>n | int n < num_keys p - iter_key_start \<and>
                       int n < int16_t (num_keys p - iter_key_start).
                  snd (softmax_tile ak p iter_key_start (st, frag)) r n))) \<and>
         ((\<forall>m n. int n < num_keys p - iter_key_start \<longrightarrow> frag' m n = frag m n) \<longrightarrow>
            softmax_tile ak p iter_key_start (st, frag') = softmax_tile ak p iter_key_start (st, frag))"
proof (intro conjI allI impI)
  let ?v = "num_keys p - iter_key_start"
  have le: "int16_t ?v \<le> ?v"
    using assms(1) by (intro int16_t_le) simp
  have nf: "\<not> int (kKeysPerBlock ak) \<le> ?v"
    using assms(2) by simp
  have valid: "(int n < ?v \<and> int n < int16_t ?v) = (int n < int16_t ?v)" for n
    using le by auto
  {
    fix m n
    assume "?v \<le> int n"
    with le have "\<not> int n < int16_t ?v" by linarith
    then show "snd (softmax_tile ak p iter_key_start (st, frag)) m n = Fin 0"
      using nf by (simp add: softmax_tile_def iterative_softmax_def Let_def softmax_exp_def)
  }
  {
    fix r
    assume "r < kQueriesPerBlock ak"
    then show "mi (fst (softmax_tile ak p iter_key_start (st, frag))) r =
              fold (\<lambda>cols acc.
                      atomicMaxFloat acc
                        (fold (\<lambda>n mx. fast_max mx (frag r n))
                           [n \<leftarrow> cols. int n < ?v \<and> int n < int16_t ?v]
                           NInf * softmax_scaling ak p))
                   (lane_columns ak r) (mi st r)"
      using nf unfolding valid
      by (simp add: softmax_tile_def iterative_softmax_def Let_def softmax_update_mi_def
          thread_max_filter)
  }
  {
    fix r
    assume r: "int r \<in> set (rows_by_line ak (narrow_thread_args (block_threads ak)))"
    let ?R = "softmax_tile ak p iter_key_start (st, frag)"
    have set_eq: "{n \<in> {0..<kKeysPerBlock ak}. int n < int16_t ?v} = {n. int n < ?v \<and> int n < int16_t ?v}"
      using le assms(2) by auto
    have w: "snd ?R r n = (if int n < int16_t ?v then snd ?R r n else Fin 0)" for n
      using nf by (simp add: softmax_tile_def iterative_softmax_def Let_def softmax_exp_def)
    have "Fin 0 + (\<Sum>n = 0..<kKeysPerBlock ak. snd ?R r n) =
          Fin 0 + (\<Sum>n = 0..<kKeysPerBlock ak. if int n < int16_t ?v then snd ?R r n else Fin 0)"
      using w by simp
    also have "\<dots> = Fin 0 + (\<Sum>n \<in> {n \<in> {0..<kKeysPerBlock ak}. int n < int16_t ?v}. snd ?R r n)"
      by (rule Fin_0_add_sum_if) simp
    finally have sum: "Fin 0 + (\<Sum>n = 0..<kKeysPerBlock ak. snd ?R r n) =
          Fin 0 + (\<Sum>n | int n < ?v \<and> int n < int16_t ?v. snd ?R r n)"
      unfolding set_eq .
    have "s_prime (fst ?R) r =
            (if int r \<in> set (rows_by_thread ak (narrow_thread_args (block_threads ak)))
             then s_prime st r * m_prime (fst ?R) r else s_prime st r) +
            (Fin 0 + (\<Sum>n = 0..<kKeysPerBlock ak. snd ?R r n))"
      using r by (simp add: softmax_tile_def iterative_softmax_def Let_def)
    then show "s_prime (fst ?R) r =
            (if int r \<in> set (rows_by_thread ak (narrow_thread_args (block_threads ak)))
             then s_prime st r * m_prime (fst ?R) r else s_prime st r) +
            (Fin 0 + (\<Sum>n | int n < ?v \<and> int n < int16_t ?v. snd ?R r n))"
      unfolding sum .
  }
  {
    assume eq: "\<forall>m n. int n < ?v \<longrightarrow> frag' m n = frag m n"
    show "softmax_tile ak p iter_key_start (st, frag') = softmax_tile ak p iter_key_start (st, frag)"
      unfolding softmax_tile_def
    proof (rule iterative_softmax_cong)
      fix r n
      assume "int (kKeysPerBlock ak) \<le> ?v \<or> int n < int16_t ?v"
      with assms(2) le have "int n < ?v" by linarith
      with eq show "frag' r n = frag r n" by simp
    qed
  }
qed

theorem partial_tile_columns_excluded_witness:
  "snd (softmax_tile example_kernel (example_params\<lparr>num_keys := 100\<rparr>) 64
          (kernel_init example_kernel example_state,
           \<lambda>m n. if n < 36 then Fin (- 1) else Fin 7)) 0 36 = Fin 0 \<and>
   mi (fst (softmax_tile example_kernel (example_params\<lparr>num_keys := 100\<rparr>) 64
          (kernel_init example_kernel example_state,
           \<lambda>m n. if n < 36 then Fin (- 1) else Fin 7))) 0 = Fin (- 1) \<and>
   s_prime (fst (softmax_tile example_kernel (example_params\<lparr>num_keys := 100\<rparr>) 64
          (kernel_init example_kernel example_state,
           \<lambda>m n. if n < 36 then Fin (- 1) else Fin 7))) 0 = Fin 36 \<and>
   softmax_tile example_kernel (example_params\<lparr>num_keys := 100\<rparr>) 64
          (kernel_init example_kernel example_state, \<lambda>m n. Fin (- 1)) =
   softmax_tile example_kernel (example_params\<lparr>num_keys := 100\<rparr>) 64
          (kernel_init example_kernel example_state,
           \<lambda>m n. if n < 36 then Fin (- 1) else Fin 7)"
proof -
  let ?p = "example_params\<lparr>num_keys := 100\<rparr>"
  let ?st = "kernel_init example_kernel example_state"
  let ?f = "\<lambda>(m::nat) (n::nat). if n < 36 then Fin (- 1) else Fin 7"
  let ?R = "softmax_tile example_kernel ?p 64 (?st, ?f)"
  have 1: "64 < num_keys ?p"
    by (simp add: example_params_def)
  have 2: "num_keys ?p - 64 < int (kKeysPerBlock example_kernel)"
    by (simp add: example_params_def example_kernel_def)
  note T = partial_tile_columns_excluded[OF 1 2, of ?st ?f "\<lambda>m n. Fin (- 1)"]
  have v: "num_keys ?p - 64 = 36" "int16_t 36 = 36"
    by (simp_all add: example_params_def int16_t_def)
  have k: "(0::nat) < kQueriesPerBlock example_kernel"
    "lane_columns example_kernel 0 = [[0..<32], [32..<64]]" "softmax_scaling example_kernel ?p = Fin 1"
    by (simp_all add: example_kernel_def softmax_scaling_def)
  have a: "snd ?R 0 36 = Fin 0"
    using T v by simp
  have t: "fold (\<lambda>n mx. fast_max mx (?f 0 n)) [n \<leftarrow> cols. int n < 36 \<and> int n < 36] NInf = Fin (- 1)"
    if "cols = [0..<32] \<or> cols = [32..<64]" for cols
  proof (rule fold_fast_max_const)
    show "\<forall>n \<in> set [n \<leftarrow> cols. int n < 36 \<and> int n < 36]. ?f 0 n = Fin (- 1)" by simp
    have "0 \<in> set [n \<leftarrow> [0..<32]. int n < 36 \<and> int n < 36]"
         "32 \<in> set [n \<leftarrow> [32..<64]. int n < 36 \<and> int n < 36]"
      by (simp_all del: upt_rec_numeral)
    then have "[n \<leftarrow> cols. int n < 36 \<and> int n < 36] \<noteq> []"
      using that by (metis empty_iff empty_set)
    then show "NInf = Fin (- 1) \<or> (NInf = NInf \<and> [n \<leftarrow> cols. int n < 36 \<and> int n < 36] \<noteq> [])"
      by simp
  qed
  have "mi (fst ?R) 0 =
          fold (\<lambda>cols acc.
                  atomicMaxFloat acc
                    (fold (\<lambda>n mx. fast_max mx (?f 0 n))
                       [n \<leftarrow> cols. int n < num_keys ?p - 64 \<and> int n < int16_t (num_keys ?p - 64)]
                       NInf * softmax_scaling example_kernel ?p))
               (lane_columns example_kernel 0) (mi ?st 0)"
    using T k(1) by blast
  also have "\<dots> = atomicMaxFloat (atomicMaxFloat (mi ?st 0) (Fin (- 1))) (Fin (- 1))"
    unfolding v k
    by (simp only: fold.simps comp_def id_def t[OF disjI1[OF refl]] t[OF disjI2[OF refl]]
        times_Fin_1)
  also have "\<dots> = Fin (- 1)"
    by (simp add: kernel_init_def example_kernel_def atomicMaxFloat_def float_as_int_less_def
        float_as_uint_less_def)
  finally have b: "mi (fst ?R) 0 = Fin (- 1)" .
  have rl: "int 0 \<in> set (rows_by_line example_kernel (narrow_thread_args (block_threads example_kernel)))"
    unfolding rows_by_line_block[OF example_static_asserts example_threads(1)] example_threads
    by simp
  have rt: "int 0 \<in> set (rows_by_thread example_kernel (narrow_thread_args (block_threads example_kernel)))"
    unfolding rows_by_thread_block[OF example_static_asserts example_threads(1)]
    by (simp add: example_kernel_def)
  have mp: "m_prime (fst ?R) 0 = Fin 0"
    using rt b kLog2e_pos
    by (simp add: softmax_tile_def iterative_softmax_def Let_def kernel_init_def
        example_kernel_def minus_accum_t_def signed_inf_def)
  have w: "snd ?R 0 n = Fin 1" if "int n < 36 \<and> int n < 36" for n
  proof -
    have "snd ?R 0 n = exp2f (Fin kLog2e * Fin (- 1) - Fin kLog2e * mi (fst ?R) 0)"
      using that v
      by (simp add: softmax_tile_def iterative_softmax_def Let_def softmax_exp_def
          softmax_scaling_def example_kernel_def example_params_def del: times_accum_t.simps)
    then show ?thesis
      unfolding b using kLog2e_pos by (simp add: minus_accum_t_def)
  qed
  have "s_prime (fst ?R) 0 =
          (if int 0 \<in> set (rows_by_thread example_kernel
                              (narrow_thread_args (block_threads example_kernel)))
           then s_prime ?st 0 * m_prime (fst ?R) 0 else s_prime ?st 0) +
          (Fin 0 + (\<Sum>n | int n < num_keys ?p - 64 \<and> int n < int16_t (num_keys ?p - 64).
                      snd ?R 0 n))"
    using T rl by blast
  also have "\<dots> = Fin 0 + (Fin 0 + (\<Sum>n | int n < 36 \<and> int n < 36. Fin 1))"
    unfolding v using rt mp w by (simp add: kernel_init_def example_kernel_def signed_zero_def)
  also have "{n. int n < 36 \<and> int n < 36} = {0..<36::nat}" by auto
  also have "Fin 0 + (Fin 0 + (\<Sum>n \<in> {0..<36::nat}. Fin 1)) = Fin 36"
    using Fin_add_sum_Fin[of 0 "\<lambda>n. 1" "{0..<36::nat}"] by simp
  finally have c: "s_prime (fst ?R) 0 = Fin 36" .
  have d: "softmax_tile example_kernel ?p 64 (?st, \<lambda>m n. Fin (- 1)) = ?R"
    using T v by simp
  show ?thesis using a b c d by simp
qed

section \<open>The recurrence of the online softmax\<close>

lemma exp2f_kLog2e: "exp2f (Fin kLog2e * x) = fexp x"
proof (cases x)
  case (Fin a)
  have "2 powr (kLog2e * a) = exp a"
    by (simp add: powr_def kLog2e_def)
  then show ?thesis using Fin kLog2e_pos by (simp add: signed_zero_def)
qed (use kLog2e_pos in \<open>simp_all add: signed_inf_def signed_zero_def\<close>)

lemma exp2f_scaled:
  assumes "0 < s"
  shows "exp2f ((Fin s * Fin kLog2e) * x - Fin kLog2e * y) = fexp (x * Fin s - y)"
proof -
  have e: "2 powr (kLog2e * a) = exp a" for a
    by (simp add: powr_def kLog2e_def)
  have e': "2 powr (s * kLog2e * a - kLog2e * b) = exp (a * s - b)" for a b
    using e[of "a * s - b"] by (simp add: algebra_simps)
  have e'': "2 powr (- (kLog2e * b)) = exp (- b)" "2 powr (s * kLog2e * a) = exp (a * s)" for a b
    using e[of "- b"] e[of "a * s"] by (simp_all add: algebra_simps)
  show ?thesis
    using kLog2e_pos assms
    by (cases x; cases y)
       (auto simp: minus_accum_t_def signed_inf_def signed_zero_def e' e'' zero_less_mult_iff
          mult_less_0_iff)
qed

lemma fast_max_commute: "fast_max a b = fast_max b a"
  by (cases a; cases b) (auto simp: max.commute)

lemma fast_max_assoc: "fast_max (fast_max a b) c = fast_max a (fast_max b c)"
  by (cases a; cases b; cases c) (auto simp: max.assoc max_def)

lemma fast_max_not_NaN: "a \<noteq> NaN \<Longrightarrow> fast_max a b \<noteq> NaN"
  by (cases a; cases b) simp_all

lemma fast_max_not_NZero: "a \<noteq> NZero \<Longrightarrow> b \<noteq> NZero \<Longrightarrow> fast_max a b \<noteq> NZero"
  by (cases a; cases b) simp_all

lemma fast_max_scale:
  "0 < s \<Longrightarrow> fast_max a b * Fin s = fast_max (a * Fin s) (b * Fin s)"
  by (cases a; cases b)
     (auto simp: signed_inf_def signed_zero_def max_mult_distrib_right mult_less_0_iff max_def
        zero_le_mult_iff mult_le_0_iff)

lemma times_pos_not_NZero: "0 < s \<Longrightarrow> x \<noteq> NZero \<Longrightarrow> x * Fin s \<noteq> NZero"
  by (cases x) (auto simp: signed_inf_def signed_zero_def)

lemma atomicMaxFloat_fast_max:
  "acc \<noteq> NaN \<Longrightarrow> v \<noteq> NaN \<Longrightarrow> v \<noteq> NZero \<Longrightarrow> atomicMaxFloat acc v = fast_max acc v"
  by (cases acc; cases v)
     (auto simp: atomicMaxFloat_def float_as_int_less_def float_as_uint_less_def max_def)

lemma atomicMaxFloat_NaN: "v \<noteq> NaN \<Longrightarrow> atomicMaxFloat NaN v = NaN"
  by (cases v) (auto simp: atomicMaxFloat_def float_as_int_less_def float_as_uint_less_def)

lemma atomicMaxFloat_twice:
  assumes "a \<noteq> NaN" "b \<noteq> NaN" "a \<noteq> NZero" "b \<noteq> NZero"
  shows "atomicMaxFloat (atomicMaxFloat m a) b = atomicMaxFloat m (fast_max a b)"
proof (cases "m = NaN")
  case True
  then show ?thesis
    using assms by (simp add: atomicMaxFloat_NaN fast_max_not_NaN)
next
  case False
  have 1: "fast_max m a \<noteq> NaN" using False by (rule fast_max_not_NaN)
  have 2: "fast_max a b \<noteq> NaN" "fast_max a b \<noteq> NZero"
    using assms by (simp_all add: fast_max_not_NaN fast_max_not_NZero)
  show ?thesis
    using False assms 1 2 by (simp add: atomicMaxFloat_fast_max fast_max_assoc)
qed

lemma atomicMaxFloat_NInf: "atomicMaxFloat m NInf = m"
  by (cases m) (auto simp: atomicMaxFloat_def float_as_int_less_def float_as_uint_less_def)

lemma thread_max_fold_max: "thread_max kFull mc frag r cols = fold_max kFull mc (frag r) cols NInf"
  by (simp add: thread_max_def fold_max_def)

lemma fold_max_not_NaN: "acc \<noteq> NaN \<Longrightarrow> fold_max kFull mc f cols acc \<noteq> NaN"
  unfolding fold_max_def
  by (induction cols arbitrary: acc) (auto simp: fast_max_not_NaN)

lemma fold_max_not_NZero:
  assumes "acc \<noteq> NZero" and "\<forall>n \<in> set cols. kFull \<or> int n < mc \<longrightarrow> f n \<noteq> NZero"
  shows "fold_max kFull mc f cols acc \<noteq> NZero"
  using assms unfolding fold_max_def
  by (induction cols arbitrary: acc) (auto simp: fast_max_not_NZero)

lemma fold_max_acc:
  "acc \<noteq> NaN \<Longrightarrow> fold_max kFull mc f cols acc = fast_max acc (fold_max kFull mc f cols NInf)"
  unfolding fold_max_def
proof (induction cols arbitrary: acc)
  case Nil
  then show ?case by (cases acc) simp_all
next
  case (Cons n cols)
  show ?case
  proof (cases "kFull \<or> int n < mc")
    case True
    have a: "fast_max acc (f n) \<noteq> NaN" using Cons.prems by (rule fast_max_not_NaN)
    have b: "fast_max NInf (f n) \<noteq> NaN" by (rule fast_max_not_NaN) simp
    have c: "fold (\<lambda>n mx. if kFull \<or> int n < mc then fast_max mx (f n) else mx) cols NInf \<noteq> NaN"
      using fold_max_not_NaN[of NInf kFull mc f cols] by (simp add: fold_max_def)
    have d: "fast_max NInf (fast_max x y) = fast_max x y" if "y \<noteq> NaN" for x y
      using that by (cases x; cases y) simp_all
    show ?thesis
      using True Cons.IH[OF a] Cons.IH[OF b] Cons.prems
      by (simp add: fast_max_assoc d[OF c])
  next
    case False
    then show ?thesis using Cons.IH[OF Cons.prems] by simp
  qed
qed

lemma fold_max_append:
  "fold_max kFull mc f (xs @ ys) NInf =
   fast_max (fold_max kFull mc f xs NInf) (fold_max kFull mc f ys NInf)"
proof -
  have "fold_max kFull mc f (xs @ ys) NInf = fold_max kFull mc f ys (fold_max kFull mc f xs NInf)"
    by (simp add: fold_max_def)
  also have "\<dots> = fast_max (fold_max kFull mc f xs NInf) (fold_max kFull mc f ys NInf)"
    by (rule fold_max_acc) (rule fold_max_not_NaN, simp)
  finally show ?thesis .
qed

lemma fold_max_mset:
  assumes "mset xs = mset ys"
  shows "fold_max kFull mc f xs acc = fold_max kFull mc f ys acc"
proof -
  have "fold (\<lambda>n mx. if kFull \<or> int n < mc then fast_max mx (f n) else mx) xs =
        fold (\<lambda>n mx. if kFull \<or> int n < mc then fast_max mx (f n) else mx) ys"
  proof (rule fold_multiset_equiv[OF _ assms])
    fix x y
    have "fast_max (fast_max mx (f y)) (f x) = fast_max (fast_max mx (f x)) (f y)" for mx
      by (metis fast_max_assoc fast_max_commute)
    then show "(\<lambda>mx. if kFull \<or> int x < mc then fast_max mx (f x) else mx) \<circ>
          (\<lambda>mx. if kFull \<or> int y < mc then fast_max mx (f y) else mx) =
          (\<lambda>mx. if kFull \<or> int y < mc then fast_max mx (f y) else mx) \<circ>
          (\<lambda>mx. if kFull \<or> int x < mc then fast_max mx (f x) else mx)"
      by (auto simp: fun_eq_iff)
  qed
  then show ?thesis by (simp add: fold_max_def)
qed

lemma fold_max_scale:
  assumes "0 < s"
  shows "fold_max kFull mc f cols acc * Fin s = fold_max kFull mc (\<lambda>n. f n * Fin s) cols (acc * Fin s)"
  unfolding fold_max_def
  by (induction cols arbitrary: acc) (simp_all add: fast_max_scale[OF assms])

lemma fold_atomicMax_groups:
  assumes "\<forall>n \<in> set (concat groups). kFull \<or> int n < mc \<longrightarrow> f n \<noteq> NZero"
  shows "fold (\<lambda>cols acc. atomicMaxFloat acc (fold_max kFull mc f cols NInf)) groups m0 =
         atomicMaxFloat m0 (fold_max kFull mc f (concat groups) NInf)"
  using assms
proof (induction groups arbitrary: m0)
  case Nil
  then show ?case by (simp add: fold_max_def atomicMaxFloat_NInf)
next
  case (Cons g groups)
  have 1: "fold_max kFull mc f g NInf \<noteq> NaN" by (rule fold_max_not_NaN) simp
  have 2: "fold_max kFull mc f (concat groups) NInf \<noteq> NaN" by (rule fold_max_not_NaN) simp
  have 3: "fold_max kFull mc f g NInf \<noteq> NZero"
    by (rule fold_max_not_NZero) (use Cons.prems in auto)
  have 4: "fold_max kFull mc f (concat groups) NInf \<noteq> NZero"
    by (rule fold_max_not_NZero) (use Cons.prems in auto)
  have "fold (\<lambda>cols acc. atomicMaxFloat acc (fold_max kFull mc f cols NInf)) groups
          (atomicMaxFloat m0 (fold_max kFull mc f g NInf)) =
        atomicMaxFloat (atomicMaxFloat m0 (fold_max kFull mc f g NInf))
          (fold_max kFull mc f (concat groups) NInf)"
    by (rule Cons.IH) (use Cons.prems in auto)
  then show ?case
    by (simp add: atomicMaxFloat_twice[OF 1 2 3 4] fold_max_append)
qed

lemma softmax_update_mi_row:
  assumes "lane_columns_ok ak" and "r < kQueriesPerBlock ak" and "0 < s"
      and "\<forall>n < kKeysPerBlock ak. kFull \<or> int n < mc \<longrightarrow> frag r n \<noteq> NZero"
  shows "softmax_update_mi ak kFull mc (Fin s) frag mi0 r =
         atomicMaxFloat (mi0 r)
           (thread_max kFull mc (\<lambda>m n. frag m n * Fin s) r [0..<kKeysPerBlock ak])"
proof -
  have ninf: "NInf * Fin s = NInf"
    using assms(3) by (simp add: signed_inf_def)
  have sc: "fold_max kFull mc (frag r) cols NInf * Fin s =
            fold_max kFull mc (\<lambda>n. frag r n * Fin s) cols NInf" for cols
    unfolding fold_max_scale[OF assms(3)] ninf by (rule refl)
  have ms: "mset (concat (lane_columns ak r)) = mset [0..<kKeysPerBlock ak]"
    using assms(1,2) by (simp add: lane_columns_ok_def)
  then have "set (concat (lane_columns ak r)) = set [0..<kKeysPerBlock ak]"
    by (rule mset_eq_setD)
  then have nz: "\<forall>n \<in> set (concat (lane_columns ak r)).
                  kFull \<or> int n < mc \<longrightarrow> frag r n * Fin s \<noteq> NZero"
    using assms(3,4) by (auto simp: times_pos_not_NZero)
  show ?thesis
    using assms(2)
    by (simp add: softmax_update_mi_def sc fold_atomicMax_groups[OF nz] fold_max_mset[OF ms]
        thread_max_fold_max)
qed

lemma iterative_softmax_fields:
  assumes "static_asserts ak" and "kNumThreads ak \<le> 128"
  shows "mi (fst (iterative_softmax ak kFull kFirst kKeep (block_threads ak) mc sc (st, frag))) =
           softmax_update_mi ak kFull mc sc frag (mi st)"
    and "snd (iterative_softmax ak kFull kFirst kKeep (block_threads ak) mc sc (st, frag)) =
           softmax_exp ak kFull mc sc frag (softmax_update_mi ak kFull mc sc frag (mi st))"
    and "r < kQueriesPerBlock ak \<Longrightarrow>
         m_prime (fst (iterative_softmax ak kFull kFirst kKeep (block_threads ak) mc sc (st, frag))) r =
           exp2f (Fin kLog2e * ((if kFirst then m_prime st r else mi st r) -
                                softmax_update_mi ak kFull mc sc frag (mi st) r))"
    and "r < kQueriesPerBlock ak \<Longrightarrow>
         s_prime (fst (iterative_softmax ak kFull kFirst kKeep (block_threads ak) mc sc (st, frag))) r =
           s_prime st r *
             exp2f (Fin kLog2e * ((if kFirst then m_prime st r else mi st r) -
                                  softmax_update_mi ak kFull mc sc frag (mi st) r)) +
           (if r < kNumWarpsPerBlock ak * kLinesPerWarp ak
            then Fin 0 +
                 (\<Sum>n = 0..<kKeysPerBlock ak.
                    softmax_exp ak kFull mc sc frag (softmax_update_mi ak kFull mc sc frag (mi st)) r n)
            else 0)"
    and "r < kQueriesPerBlock ak \<Longrightarrow>
         accum_o (fst (iterative_softmax ak kFull kFirst kKeep (block_threads ak) mc sc (st, frag))) r =
           (if kKeep \<and> \<not> kFirst
            then (\<lambda>c. accum_o st r c *
                   exp2f (Fin kLog2e * (mi st r - softmax_update_mi ak kFull mc sc frag (mi st) r)))
            else accum_o st r)"
    and "out_of_bounds (fst (iterative_softmax ak kFull kFirst kKeep (block_threads ak) mc sc (st, frag))) =
           out_of_bounds st"
proof -
  note rt = rows_by_thread_block[OF assms] and rl = rows_by_line_block[OF assms]
  show "mi (fst (iterative_softmax ak kFull kFirst kKeep (block_threads ak) mc sc (st, frag))) =
           softmax_update_mi ak kFull mc sc frag (mi st)"
    and "snd (iterative_softmax ak kFull kFirst kKeep (block_threads ak) mc sc (st, frag)) =
           softmax_exp ak kFull mc sc frag (softmax_update_mi ak kFull mc sc frag (mi st))"
    by (simp_all add: iterative_softmax_def Let_def)
  show "out_of_bounds (fst (iterative_softmax ak kFull kFirst kKeep (block_threads ak) mc sc (st, frag))) =
           out_of_bounds st"
    using iterative_softmax_in_bounds[OF assms, of kFull kFirst kKeep mc sc "(st, frag)"] by simp
  assume r: "r < kQueriesPerBlock ak"
  show "m_prime (fst (iterative_softmax ak kFull kFirst kKeep (block_threads ak) mc sc (st, frag))) r =
           exp2f (Fin kLog2e * ((if kFirst then m_prime st r else mi st r) -
                                softmax_update_mi ak kFull mc sc frag (mi st) r))"
    using r by (simp add: iterative_softmax_def Let_def rt)
  show "s_prime (fst (iterative_softmax ak kFull kFirst kKeep (block_threads ak) mc sc (st, frag))) r =
           s_prime st r *
             exp2f (Fin kLog2e * ((if kFirst then m_prime st r else mi st r) -
                                  softmax_update_mi ak kFull mc sc frag (mi st) r)) +
           (if r < kNumWarpsPerBlock ak * kLinesPerWarp ak
            then Fin 0 +
                 (\<Sum>n = 0..<kKeysPerBlock ak.
                    softmax_exp ak kFull mc sc frag (softmax_update_mi ak kFull mc sc frag (mi st)) r n)
            else 0)"
    using r by (simp add: iterative_softmax_def Let_def rt rl)
  show "accum_o (fst (iterative_softmax ak kFull kFirst kKeep (block_threads ak) mc sc (st, frag))) r =
           (if kKeep \<and> \<not> kFirst
            then (\<lambda>c. accum_o st r c *
                   exp2f (Fin kLog2e * (mi st r - softmax_update_mi ak kFull mc sc frag (mi st) r)))
            else accum_o st r)"
    using r by (auto simp: iterative_softmax_def Let_def rt fun_eq_iff)
qed

lemma iterative_softmax_buffers:
  "output_buffer (fst (iterative_softmax ak kFull kFirst kKeep th mc sc sf)) = output_buffer (fst sf)"
  "output_accum_buffer (fst (iterative_softmax ak kFull kFirst kKeep th mc sc sf)) =
     output_accum_buffer (fst sf)"
  "logsumexp_buffer (fst (iterative_softmax ak kFull kFirst kKeep th mc sc sf)) =
     logsumexp_buffer (fst sf)"
  by (simp_all add: iterative_softmax_def Let_def)

lemma softmax_exp_fexp:
  assumes "0 < s"
  shows "softmax_exp ak kFull mc (Fin s) frag mi1 r n =
     (if kFull \<or> int n < mc then fexp (frag r n * Fin s - mi1 r) else Fin 0)"
  unfolding softmax_exp_def exp2f_scaled[OF assms] by (rule refl)

lemma thread_max_const:
  assumes "cols \<noteq> []" and "\<forall>n \<in> set cols. (kFull \<or> int n < mc) \<and> frag r n = Fin a"
  shows "thread_max kFull mc frag r cols = Fin a"
proof -
  have "fold (\<lambda>n mx. if kFull \<or> int n < mc then fast_max mx (frag r n) else mx) cols acc = Fin a"
    if "acc = Fin a \<or> (acc = NInf \<and> cols \<noteq> [])" for acc
    using assms(2) that by (induction cols arbitrary: acc) auto
  then show ?thesis using assms(1) by (simp add: thread_max_def)
qed

lemma fold_max_eq_FinI:
  assumes "acc = NInf \<or> (\<exists>a. acc = Fin a \<and> a \<le> v)"
      and "acc = Fin v \<or> (\<exists>n \<in> set cols. (kFull \<or> int n < mc) \<and> f n = Fin v)"
      and "\<forall>n \<in> set cols. \<exists>u. f n = Fin u \<and> u \<le> v"
  shows "fold_max kFull mc f cols acc = Fin v"
  using assms unfolding fold_max_def
proof (induction cols arbitrary: acc)
  case Nil
  then show ?case by auto
next
  case (Cons n cols)
  obtain u where u: "f n = Fin u" "u \<le> v" using Cons.prems(3) by auto
  show ?case
  proof (cases "kFull \<or> int n < mc")
    case True
    have 1: "fast_max acc (f n) = NInf \<or> (\<exists>a. fast_max acc (f n) = Fin a \<and> a \<le> v)"
      using Cons.prems(1) u by auto
    have 2: "fast_max acc (f n) = Fin v \<or>
             (\<exists>k \<in> set cols. (kFull \<or> int k < mc) \<and> f k = Fin v)"
      using Cons.prems(1,2) u by (auto simp: max_def)
    show ?thesis
      using Cons.IH[OF 1 2] Cons.prems(3) True by simp
  next
    case False
    have 2: "acc = Fin v \<or> (\<exists>k \<in> set cols. (kFull \<or> int k < mc) \<and> f k = Fin v)"
      using Cons.prems(2) False by auto
    show ?thesis
      using Cons.IH[OF Cons.prems(1) 2] Cons.prems(3) False by simp
  qed
qed

lemma thread_max_eq_FinI:
  assumes "\<exists>n \<in> set cols. (kFull \<or> int n < mc) \<and> frag r n = Fin v"
      and "\<forall>n \<in> set cols. \<exists>u. frag r n = Fin u \<and> u \<le> v"
  shows "thread_max kFull mc frag r cols = Fin v"
  unfolding thread_max_fold_max
  by (rule fold_max_eq_FinI) (use assms in auto)

lemma softmax_update_mi_two:
  assumes "r < kQueriesPerBlock ak" and "lane_columns ak r = [g1, g2]"
  shows "softmax_update_mi ak kFull mc sc frag mi0 r =
         atomicMaxFloat (atomicMaxFloat (mi0 r) (thread_max kFull mc frag r g1 * sc))
           (thread_max kFull mc frag r g2 * sc)"
  using assms by (simp add: softmax_update_mi_def)

lemma example_lane_columns_ok: "lane_columns_ok example_kernel"
proof -
  have "[0..<64] = [0..<32] @ [32..<64]"
    using upt_add_eq_append[of 0 32 32] by simp
  then show ?thesis by (simp add: lane_columns_ok_def example_kernel_def)
qed

lemma unmasked_kernel_facts:
  "static_asserts unmasked_kernel" "kNumThreads unmasked_kernel \<le> 128"
  "lane_columns_ok unmasked_kernel" "kNumWarpsPerBlock unmasked_kernel = 2"
  "kLinesPerWarp unmasked_kernel = 16"
  using example_static_asserts example_threads example_lane_columns_ok
  by (simp_all add: unmasked_kernel_def static_asserts_def kNumThreads_def kNumWarpsPerBlock_def
      kLinesPerWarp_def lane_columns_ok_def)

lemma wide_kernel_facts:
  "static_asserts wide_kernel" "kNumThreads wide_kernel \<le> 128"
  "kNumWarpsPerBlock wide_kernel = 3" "kLinesPerWarp wide_kernel = 10"
  "kQueriesPerBlock wide_kernel = 32" "kKeysPerBlock wide_kernel = 96"
  by (simp_all add: wide_kernel_def example_kernel_def static_asserts_def kNumThreads_def
      kNumWarpsPerBlock_def kLinesPerWarp_def kWarpSize_def)

lemma wide_lane_columns_ok: "lane_columns_ok wide_kernel"
proof -
  have "[0..<96] = [0..<32] @ [32..<64] @ [64..<96]"
    using upt_add_eq_append[of 0 32 64] upt_add_eq_append[of 32 32 32] by simp
  then show ?thesis by (simp add: lane_columns_ok_def wide_kernel_def example_kernel_def)
qed

text \<open>
  C2 (as amended). Take an instantiation that compiles and has at most 128 threads, a tile
  layout giving each column of a row to one thread, a positive scaling factor, and a row
  whose sum a thread adds to \<open>s_prime\<close> (the rows below \<open>kNumWarpsPerBlock * kLinesPerWarp\<close>)
  and whose scores in the columns that count are not \<open>-0.0\<close>. In every call of
  \<open>iterative_softmax\<close>, \<open>mi\<close> becomes the maximum of the previous running maximum and the
  tile's maximum, over the row, of the scaled scores (the maximum of \<open>atomicMaxFloat\<close>,
  which is \<open>fmaxf\<close> when the previous maximum is a number); the weights are the exponentials
  of the scaled scores minus \<open>mi\<close>; after the first key tile the running sum, and the
  accumulated output when it is kept in registers, are rescaled by \<open>exp (mi_old - mi)\<close> and
  the row sum of the weights is added to the running sum. On the first key tile the
  accumulated output is left as it is (its rescaling is skipped), and the factor of the
  running sum is still computed by the general formula, from the stale maximum in
  \<open>m_prime\<close>: from the initial \<open>m_prime = -\<infinity>\<close> it is 0, not 1, and multiplies the initial
  running sum 0.
\<close>

theorem online_softmax_recurrence:
  assumes "static_asserts ak" and "kNumThreads ak \<le> 128" and "lane_columns_ok ak"
      and "r < kNumWarpsPerBlock ak * kLinesPerWarp ak"
      and "0 < s"
      and "\<forall>n < kKeysPerBlock ak. kFullColumns \<or> int n < max_col \<longrightarrow> frag r n \<noteq> NZero"
      and "iterative_softmax ak kFullColumns kIsFirst kKeepRF (block_threads ak) max_col (Fin s)
             (st, frag) = (st', P)"
  shows
    "mi st' r = atomicMaxFloat (mi st r)
       (thread_max kFullColumns max_col (\<lambda>m n. frag m n * Fin s) r [0..<kKeysPerBlock ak]) \<and>
     (mi st r \<noteq> NaN \<longrightarrow>
        mi st' r = fast_max (mi st r)
          (thread_max kFullColumns max_col (\<lambda>m n. frag m n * Fin s) r [0..<kKeysPerBlock ak])) \<and>
     (\<forall>n. P r n = (if kFullColumns \<or> int n < max_col
                    then fexp (frag r n * Fin s - mi st' r) else Fin 0)) \<and>
     (\<not> kIsFirst \<longrightarrow>
        m_prime st' r = fexp (mi st r - mi st' r) \<and>
        s_prime st' r = s_prime st r * fexp (mi st r - mi st' r) +
                        (Fin 0 + (\<Sum>n = 0..<kKeysPerBlock ak. P r n)) \<and>
        (\<forall>c. accum_o st' r c =
              (if kKeepRF then accum_o st r c * fexp (mi st r - mi st' r) else accum_o st r c))) \<and>
     (kIsFirst \<longrightarrow>
        (\<forall>c. accum_o st' r c = accum_o st r c) \<and>
        m_prime st' r = fexp (m_prime st r - mi st' r) \<and>
        s_prime st' r = s_prime st r * fexp (m_prime st r - mi st' r) +
                        (Fin 0 + (\<Sum>n = 0..<kKeysPerBlock ak. P r n)) \<and>
        (m_prime st r = NInf \<and> s_prime st r = Fin 0 \<and> mi st' r \<noteq> NInf \<and> mi st' r \<noteq> NaN \<longrightarrow>
           m_prime st' r = Fin 0 \<and>
           s_prime st' r = Fin 0 + (\<Sum>n = 0..<kKeysPerBlock ak. P r n))) \<and>
     out_of_bounds st' = out_of_bounds st"
proof -
  have rq: "r < kQueriesPerBlock ak"
    using assms(4) kLinesPerWarp_less(3)[OF assms(1)] by simp
  have st': "st' = fst (iterative_softmax ak kFullColumns kIsFirst kKeepRF (block_threads ak)
                         max_col (Fin s) (st, frag))"
    and P: "P = snd (iterative_softmax ak kFullColumns kIsFirst kKeepRF (block_threads ak)
                       max_col (Fin s) (st, frag))"
    using assms(7) by simp_all
  note f = iterative_softmax_fields[OF assms(1,2), where kFull = kFullColumns and kFirst = kIsFirst
      and kKeep = kKeepRF and mc = max_col and sc = "Fin s" and st = st and frag = frag,
      folded st' P]
  let ?M = "thread_max kFullColumns max_col (\<lambda>m n. frag m n * Fin s) r [0..<kKeysPerBlock ak]"
  have mi': "mi st' r = atomicMaxFloat (mi st r) ?M"
    unfolding f(1) using assms(6)
    by (intro softmax_update_mi_row[OF assms(3) rq assms(5)])
  have M: "?M \<noteq> NaN" "?M \<noteq> NZero"
    unfolding thread_max_fold_max
    by (rule fold_max_not_NaN, simp)
       (rule fold_max_not_NZero, use assms(5,6) in \<open>auto simp: times_pos_not_NZero\<close>)
  have mi'': "mi st' r = fast_max (mi st r) ?M" if "mi st r \<noteq> NaN"
    unfolding mi' by (rule atomicMaxFloat_fast_max[OF that M])
  have Pdef: "P = softmax_exp ak kFullColumns max_col (Fin s) frag (mi st')"
    using f(1) f(2) by simp
  have Pn: "P r n = (if kFullColumns \<or> int n < max_col
                    then fexp (frag r n * Fin s - mi st' r) else Fin 0)" for n
    unfolding Pdef softmax_exp_fexp[OF assms(5)] by (rule refl)
  have mp: "m_prime st' r = fexp ((if kIsFirst then m_prime st r else mi st r) - mi st' r)"
    unfolding f(3)[OF rq] exp2f_kLog2e f(1)[symmetric] by (rule refl)
  have sp: "s_prime st' r =
      s_prime st r * fexp ((if kIsFirst then m_prime st r else mi st r) - mi st' r) +
      (Fin 0 + (\<Sum>n = 0..<kKeysPerBlock ak. P r n))"
    unfolding f(4)[OF rq] exp2f_kLog2e f(1)[symmetric] Pdef[symmetric] using assms(4) by simp
  have ao: "accum_o st' r c =
      (if kKeepRF \<and> \<not> kIsFirst then accum_o st r c * fexp (mi st r - mi st' r)
       else accum_o st r c)" for c
    unfolding f(5)[OF rq] exp2f_kLog2e f(1)[symmetric] by simp
  have first: "m_prime st' r = Fin 0 \<and>
               s_prime st' r = Fin 0 + (\<Sum>n = 0..<kKeysPerBlock ak. P r n)"
    if "kIsFirst" "m_prime st r = NInf" "s_prime st r = Fin 0" "mi st' r \<noteq> NInf" "mi st' r \<noteq> NaN"
  proof -
    have e: "fexp (NInf - mi st' r) = Fin 0"
      using that(4,5) by (cases "mi st' r") (simp_all add: minus_accum_t_def)
    have z: "Fin 0 * Fin 0 + (Fin 0 + x) = Fin 0 + x" for x :: accum_t
      by (cases x) (simp_all add: signed_zero_def)
    show ?thesis
      using mp sp that(1-3) by (simp add: e z del: times_accum_t.simps)
  qed
  show ?thesis
    using mi' mi'' Pn mp sp ao first f(6) by auto
qed

theorem online_softmax_recurrence_witness:
  "mi (fst (iterative_softmax example_kernel True True True (block_threads example_kernel) 64 (Fin 1)
             (kernel_init example_kernel example_state, \<lambda>m n. Fin 0))) 0 = Fin 0 \<and>
   m_prime (fst (iterative_softmax example_kernel True True True (block_threads example_kernel) 64
             (Fin 1) (kernel_init example_kernel example_state, \<lambda>m n. Fin 0))) 0 = Fin 0 \<and>
   s_prime (fst (iterative_softmax example_kernel True True True (block_threads example_kernel) 64
             (Fin 1) (kernel_init example_kernel example_state, \<lambda>m n. Fin 0))) 0 = Fin 64 \<and>
   m_prime (fst (iterative_softmax example_kernel True False True (block_threads example_kernel) 64
             (Fin 1) (example_state, \<lambda>m n. Fin 0))) 0 =
     fexp (mi example_state 0 -
           mi (fst (iterative_softmax example_kernel True False True (block_threads example_kernel)
                 64 (Fin 1) (example_state, \<lambda>m n. Fin 0))) 0)"
proof -
  let ?X = "iterative_softmax example_kernel True True True (block_threads example_kernel) 64 (Fin 1)
             (kernel_init example_kernel example_state, \<lambda>m n. Fin 0)"
  have k: "kKeysPerBlock example_kernel = 64"
    by (simp add: example_kernel_def)
  have r: "0 < kNumWarpsPerBlock example_kernel * kLinesPerWarp example_kernel"
    by (simp add: example_threads)
  have s: "(0::real) < 1" by simp
  have nz: "\<forall>n < kKeysPerBlock example_kernel. True \<or> int n < 64 \<longrightarrow> (\<lambda>m n. Fin 0) (0::nat) n \<noteq> NZero"
    by simp
  note T1 = online_softmax_recurrence[OF example_static_asserts example_threads(1)
            example_lane_columns_ok r s nz prod.collapse[symmetric],
            of True True "kernel_init example_kernel example_state", unfolded k]
  note T2 = online_softmax_recurrence[OF example_static_asserts example_threads(1)
            example_lane_columns_ok r s nz prod.collapse[symmetric],
            of False True example_state, unfolded k]
  have tm: "thread_max True 64 (\<lambda>m n. Fin 0 * Fin 1) 0 [0..<64] = Fin 0"
    by (rule thread_max_const) (simp_all add: signed_zero_def)
  have init: "mi (kernel_init example_kernel example_state) 0 = NInf"
    "m_prime (kernel_init example_kernel example_state) 0 = NInf"
    "s_prime (kernel_init example_kernel example_state) 0 = Fin 0"
    by (simp_all add: kernel_init_def example_kernel_def)
  from T1 have "mi (fst ?X) 0 = atomicMaxFloat (mi (kernel_init example_kernel example_state) 0)
                  (thread_max True 64 (\<lambda>m n. Fin 0 * Fin 1) 0 [0..<64])"
    by blast
  then have a: "mi (fst ?X) 0 = Fin 0"
    unfolding tm init
    by (simp add: atomicMaxFloat_def float_as_int_less_def)
  have w: "snd ?X 0 n = Fin 1" for n
  proof -
    from T1 have "\<forall>n. snd ?X 0 n = (if True \<or> int n < 64
                    then fexp (Fin 0 * Fin 1 - mi (fst ?X) 0) else Fin 0)" by blast
    then have "snd ?X 0 n = fexp (Fin 0 * Fin 1 - mi (fst ?X) 0)" by simp
    then show ?thesis unfolding a by (simp add: minus_accum_t_def signed_zero_def)
  qed
  from T1 have "m_prime (kernel_init example_kernel example_state) 0 = NInf \<and>
                s_prime (kernel_init example_kernel example_state) 0 = Fin 0 \<and>
                mi (fst ?X) 0 \<noteq> NInf \<and> mi (fst ?X) 0 \<noteq> NaN \<longrightarrow>
                m_prime (fst ?X) 0 = Fin 0 \<and>
                s_prime (fst ?X) 0 = Fin 0 + (\<Sum>n = 0..<64. snd ?X 0 n)"
    by blast
  with init a have "m_prime (fst ?X) 0 = Fin 0 \<and>
                    s_prime (fst ?X) 0 = Fin 0 + (\<Sum>n = 0..<64. snd ?X 0 n)"
    by simp
  then have b: "m_prime (fst ?X) 0 = Fin 0" and c: "s_prime (fst ?X) 0 = Fin 64"
    using Fin_add_sum_Fin[of 0 "\<lambda>n. 1" "{0..<64::nat}"] by (simp_all add: w)
  from T2 have d: "m_prime (fst (iterative_softmax example_kernel True False True
             (block_threads example_kernel) 64 (Fin 1) (example_state, \<lambda>m n. Fin 0))) 0 =
     fexp (mi example_state 0 -
           mi (fst (iterative_softmax example_kernel True False True (block_threads example_kernel)
                 64 (Fin 1) (example_state, \<lambda>m n. Fin 0))) 0)"
    by blast
  show ?thesis using a b c d by blast
qed

text \<open>
  The claim C2 as stated fails on the first key tile of a run: the rescale factor left in
  \<open>m_prime\<close> is 0, computed by the general formula, and not 1.
\<close>

theorem first_tile_rescale_counterexample:
  "m_prime (fst (softmax_tile example_kernel example_params 0
                  (kernel_init example_kernel example_state, \<lambda>m n. Fin 0))) 0 = Fin 0 \<and>
   m_prime (fst (softmax_tile example_kernel example_params 0
                  (kernel_init example_kernel example_state, \<lambda>m n. Fin 0))) 0 \<noteq> Fin 1"
proof -
  have q: "0 < kQueriesPerBlock example_kernel"
    by (simp add: example_kernel_def)
  have i16: "int16_t 128 = 128" by (simp add: int16_t_def)
  have X: "softmax_tile example_kernel example_params 0
             (kernel_init example_kernel example_state, \<lambda>m n. Fin 0) =
           iterative_softmax example_kernel True True True (block_threads example_kernel) 128 (Fin 1)
             (kernel_init example_kernel example_state, \<lambda>m n. Fin 0)"
    by (simp add: softmax_tile_def softmax_scaling_def example_kernel_def example_params_def
        kKeepOutputInRF_def i16)
  have lc: "lane_columns example_kernel 0 = [[0..<32], [32..<64]]"
    by (simp only: example_kernel_def AttentionKernel.select_convs)
  have init: "mi (kernel_init example_kernel example_state) 0 = NInf"
    "m_prime (kernel_init example_kernel example_state) 0 = NInf"
    by (simp_all add: kernel_init_def example_kernel_def)
  have t0: "thread_max True 128 (\<lambda>m n. Fin 0) 0 [0..<32] = Fin 0"
           "thread_max True 128 (\<lambda>m n. Fin 0) 0 [32..<64] = Fin 0"
    by (rule thread_max_const, simp del: upt_rec_numeral, simp del: upt_rec_numeral)+
  have mi0: "softmax_update_mi example_kernel True 128 (Fin 1) (\<lambda>m n. Fin 0)
               (mi (kernel_init example_kernel example_state)) 0 = Fin 0"
    unfolding softmax_update_mi_two[OF q lc] t0 init
    by (simp add: atomicMaxFloat_def float_as_int_less_def float_as_uint_less_def)
  have mp: "m_prime (fst (softmax_tile example_kernel example_params 0
                  (kernel_init example_kernel example_state, \<lambda>m n. Fin 0))) 0 = Fin 0"
    unfolding X iterative_softmax_fields(3)[OF example_static_asserts example_threads(1) q]
      mi0 exp2f_kLog2e
    by (simp add: init minus_accum_t_def)
  show ?thesis using mp by simp
qed

text \<open>
  Three places where the step is not the recurrence. With a negative scaling factor the
  maximum of the scores is scaled, and \<open>mi\<close> gets the minimum of the scaled scores. A thread
  maximum \<open>-0.0\<close> goes through \<open>atomicMax\<close> on signed integers, where its bit pattern is the
  least one: it does not raise \<open>mi\<close> from \<open>-\<infinity>\<close>. And in the tile of 32 by 96 no thread adds
  the row sum of row 31: after the first key tile of 96 scores 0 its running sum is 0.
\<close>

lemma negative_scaling_takes_minimum:
  "mi (fst (softmax_tile unmasked_kernel (example_params\<lparr>scale := Fin (- 1)\<rparr>) 0
             (kernel_init unmasked_kernel example_state,
              \<lambda>m n. if n = 0 then Fin 1 else Fin 2))) 0 = Fin (- 2) \<and>
   thread_max True 128 (\<lambda>m n. (if n = 0 then Fin 1 else Fin 2) * Fin (- 1)) 0 [0..<64] = Fin (- 1)"
proof -
  have q: "0 < kQueriesPerBlock unmasked_kernel"
    by (simp add: example_kernel_def unmasked_kernel_def)
  have i16: "int16_t 128 = 128" by (simp add: int16_t_def)
  have Y: "softmax_tile unmasked_kernel (example_params\<lparr>scale := Fin (- 1)\<rparr>) 0
             (kernel_init unmasked_kernel example_state, \<lambda>m n. if n = 0 then Fin 1 else Fin 2) =
           iterative_softmax unmasked_kernel True True True (block_threads unmasked_kernel) 128
             (Fin (- 1))
             (kernel_init unmasked_kernel example_state, \<lambda>m n. if n = 0 then Fin 1 else Fin 2)"
    by (simp add: softmax_tile_def softmax_scaling_def example_kernel_def example_params_def
        unmasked_kernel_def kKeepOutputInRF_def i16)
  have lc: "lane_columns unmasked_kernel 0 = [[0..<32], [32..<64]]"
    by (simp only: example_kernel_def unmasked_kernel_def AttentionKernel.select_convs
        AttentionKernel.update_convs)
  have init: "mi (kernel_init unmasked_kernel example_state) 0 = NInf"
    by (simp add: kernel_init_def example_kernel_def unmasked_kernel_def)
  have t1: "thread_max True 128 (\<lambda>m n. if n = 0 then Fin 1 else Fin 2) 0 [0..<32] = Fin 2"
    and t2: "thread_max True 128 (\<lambda>m n. if n = 0 then Fin 1 else Fin 2) 0 [32..<64] = Fin 2"
    by (rule thread_max_eq_FinI, auto intro: bexI[of _ 1] bexI[of _ 32])+
  have neg: "mi (fst (softmax_tile unmasked_kernel (example_params\<lparr>scale := Fin (- 1)\<rparr>) 0
                  (kernel_init unmasked_kernel example_state,
                   \<lambda>m n. if n = 0 then Fin 1 else Fin 2))) 0 = Fin (- 2)"
    unfolding Y iterative_softmax_fields(1)[OF unmasked_kernel_facts(1,2)]
      softmax_update_mi_two[OF q lc] t1 t2 init
    by (simp add: atomicMaxFloat_def float_as_int_less_def float_as_uint_less_def)
  have t3: "thread_max True 128 (\<lambda>m n. (if n = 0 then Fin 1 else Fin 2) * Fin (- 1)) 0 [0..<64]
            = Fin (- 1)"
    by (rule thread_max_eq_FinI) (auto intro: bexI[of _ 0])
  show ?thesis using neg t3 by simp
qed

lemma negative_zero_ignored:
  "atomicMaxFloat NInf NZero = NInf \<and> fast_max NInf NZero = NZero"
  by (simp add: atomicMaxFloat_def float_as_int_less_def)

lemma wide_tile_row_sum_skipped:
  "s_prime (fst (iterative_softmax wide_kernel True True True (block_threads wide_kernel) 96 (Fin 1)
                  (kernel_init wide_kernel example_state, \<lambda>m n. Fin 0))) 31 = Fin 0 \<and>
   snd (iterative_softmax wide_kernel True True True (block_threads wide_kernel) 96 (Fin 1)
                  (kernel_init wide_kernel example_state, \<lambda>m n. Fin 0)) 31 0 = Fin 1"
proof -
  have q: "31 < kQueriesPerBlock wide_kernel" by (simp add: wide_kernel_facts)
  have s: "(0::real) < 1" by simp
  have init: "mi (kernel_init wide_kernel example_state) 31 = NInf"
    "m_prime (kernel_init wide_kernel example_state) 31 = NInf"
    "s_prime (kernel_init wide_kernel example_state) 31 = Fin 0"
    by (simp_all add: kernel_init_def wide_kernel_facts)
  have tm: "thread_max True 96 (\<lambda>m n. Fin 0 * Fin 1) 31 [0..<96] = Fin 0"
    by (rule thread_max_const) (simp_all add: signed_zero_def)
  have mi': "softmax_update_mi wide_kernel True 96 (Fin 1) (\<lambda>m n. Fin 0)
               (mi (kernel_init wide_kernel example_state)) 31 = Fin 0"
    using softmax_update_mi_row[OF wide_lane_columns_ok q s, of True 96 "\<lambda>m n. Fin 0"
            "mi (kernel_init wide_kernel example_state)"]
    by (simp add: wide_kernel_facts tm[simplified] init atomicMaxFloat_def float_as_int_less_def)
  have 1: "s_prime (fst (iterative_softmax wide_kernel True True True (block_threads wide_kernel)
                  96 (Fin 1) (kernel_init wide_kernel example_state, \<lambda>m n. Fin 0))) 31 = Fin 0"
    unfolding iterative_softmax_fields(4)[OF wide_kernel_facts(1,2) q] mi' exp2f_kLog2e
    by (simp add: init wide_kernel_facts minus_accum_t_def zero_accum_t_def signed_zero_def)
  have 2: "snd (iterative_softmax wide_kernel True True True (block_threads wide_kernel) 96 (Fin 1)
                  (kernel_init wide_kernel example_state, \<lambda>m n. Fin 0)) 31 0 = Fin 1"
    unfolding iterative_softmax_fields(2)[OF wide_kernel_facts(1,2)] softmax_exp_fexp[OF s] mi'
    by (simp add: minus_accum_t_def signed_zero_def)
  show ?thesis using 1 2 by simp
qed

end
